theory Spec2Isabelle
  imports Complex_Main "HOL-Library.Sublist"
begin

section \<open>JavaScript values and exceptions\<close>

text \<open>
  The values that the modelled expressions can produce: \<open>undefined\<close>, \<open>null\<close> and strings.
  Strings are lists of code units below 256. A value is truthy when it is a non-empty string.
\<close>

datatype jsval = Undefined | Null | Str string

fun truthy :: "jsval \<Rightarrow> bool" where
  "truthy Undefined = False"
| "truthy Null = False"
| "truthy (Str s) = (s \<noteq> [])"

datatype js_exn = NetworkError | HttpError nat | SyntaxError | URIError | TypeError | CallbackError

text \<open>JavaScript numbers, without the rounding to a double.\<close>

datatype jsnum = NaN | PosInfinity | NegInfinity | Finite real

text \<open>
  \<open>a >= b\<close> for an integer counter \<open>a\<close> and the number that the comparison makes of \<open>b\<close>:
  every comparison with \<open>NaN\<close> is false.
\<close>

fun js_ge :: "int \<Rightarrow> jsnum \<Rightarrow> bool" where
  "js_ge a NaN = False"
| "js_ge a PosInfinity = False"
| "js_ge a NegInfinity = True"
| "js_ge a (Finite x) = (x \<le> real_of_int a)"

section \<open>AJAX helpers\<close>

subsection \<open>String primitives used by \<open>getCookie\<close>\<close>

text \<open>
  \<open>String.prototype.trim\<close> removes white space and line terminators from both ends; on code
  units below 256 these are TAB, LF, VT, FF, CR, SPACE and NBSP.
\<close>

definition is_ws :: "char \<Rightarrow> bool" where
  "is_ws c = (c \<in> set [CHR 0x09, CHR 0x0A, CHR 0x0B, CHR 0x0C, CHR 0x0D, CHR 0x20, CHR 0xA0])"

definition trim :: "string \<Rightarrow> string" where
  "trim s = rev (dropWhile is_ws (rev (dropWhile is_ws s)))"

text \<open>\<open>s.split(sep)\<close> for a one-character separator: never empty, \<open>''''.split(sep) = ['''']\<close>.\<close>

fun split_on :: "char \<Rightarrow> string \<Rightarrow> string list" where
  "split_on sep [] = [[]]"
| "split_on sep (c # cs) =
     (if c = sep then [] # split_on sep cs
      else (case split_on sep cs of [] \<Rightarrow> [[c]] | w # ws \<Rightarrow> (c # w) # ws))"

subsection \<open>\<open>AjaxHelper.getCookie\<close>\<close>

text \<open>
  The built-in \<open>decodeURIComponent\<close> is a parameter: \<open>None\<close> stands for the \<open>URIError\<close> it
  raises on a malformed escape sequence, which \<open>getCookie\<close> does not catch. The \<open>for\<close> loop with
  its \<open>break\<close> is the recursion \<open>getCookie_loop\<close> over the remaining entries;
  \<open>substring(0, n)\<close> is \<open>take n\<close> and \<open>substring(n)\<close> is \<open>drop n\<close>.
\<close>

fun getCookie_loop :: "(string \<Rightarrow> string option) \<Rightarrow> string \<Rightarrow> string list \<Rightarrow> js_exn + jsval" where
  "getCookie_loop decodeURIComponent name [] = Inr Null"
| "getCookie_loop decodeURIComponent name (c # cookies) =
     (let cookie = trim c in
      if take (length name + 1) cookie = name @ ''=''
      then (case decodeURIComponent (drop (length name + 1) cookie) of
              None \<Rightarrow> Inl URIError
            | Some v \<Rightarrow> Inr (Str v))
      else getCookie_loop decodeURIComponent name cookies)"

definition getCookie :: "(string \<Rightarrow> string option) \<Rightarrow> string \<Rightarrow> string \<Rightarrow> js_exn + jsval" where
  "getCookie decodeURIComponent document_cookie name =
     (if document_cookie \<noteq> []
      then getCookie_loop decodeURIComponent name (split_on CHR '';'' document_cookie)
      else Inr Null)"

text \<open>
  The entries of a cookie string, trimmed, in the order of the string; and the name of an
  entry, which is what precedes its first \<open>=\<close>.
\<close>

definition cookie_entries :: "string \<Rightarrow> string list" where
  "cookie_entries document_cookie = map trim (split_on CHR '';'' document_cookie)"

definition entry_name :: "string \<Rightarrow> string" where
  "entry_name entry = takeWhile (\<lambda>c. c \<noteq> CHR ''='') entry"

text \<open>
  The reading of \<open>getCookie\<close> to compare with: the decoded value of the first trimmed entry
  that starts with \<open>name=\<close>, \<open>null\<close> when there is none.
\<close>

definition getCookie_spec :: "(string \<Rightarrow> string option) \<Rightarrow> string \<Rightarrow> string \<Rightarrow> js_exn + jsval" where
  "getCookie_spec decodeURIComponent document_cookie name =
     (case find (prefix (name @ ''='')) (cookie_entries document_cookie) of
        None \<Rightarrow> Inr Null
      | Some entry \<Rightarrow>
          (case decodeURIComponent (drop (length (name @ ''='')) entry) of
             None \<Rightarrow> Inl URIError
           | Some v \<Rightarrow> Inr (Str v)))"

subsection \<open>\<open>AjaxHelper.getCSRFToken\<close>\<close>

text \<open>
  What the three look-ups of \<open>getCSRFToken\<close> see of the page: the \<open>value\<close> of the first element
  with \<open>name=csrfmiddlewaretoken\<close> and the \<open>content\<close> of the first \<open>meta[name="csrf-token"]\<close>
  (\<open>None\<close> when \<open>querySelector\<close> finds no element), and \<open>document.cookie\<close>.
\<close>

record page =
  csrf_field :: "jsval option"
  csrf_meta :: "jsval option"
  cookie :: string

text \<open>\<open>e?.p\<close> is \<open>undefined\<close> when \<open>e\<close> is \<open>null\<close>.\<close>

definition opt_chain :: "jsval option \<Rightarrow> jsval" where
  "opt_chain e = (case e of None \<Rightarrow> Undefined | Some v \<Rightarrow> v)"

text \<open>\<open>a || b || c\<close>: the right operand is evaluated only when the left one is falsy.\<close>

definition getCSRFToken :: "(string \<Rightarrow> string option) \<Rightarrow> page \<Rightarrow> js_exn + jsval" where
  "getCSRFToken decodeURIComponent document =
     (if truthy (opt_chain (csrf_field document)) then Inr (opt_chain (csrf_field document))
      else if truthy (opt_chain (csrf_meta document)) then Inr (opt_chain (csrf_meta document))
      else getCookie decodeURIComponent (cookie document) ''csrftoken'')"

subsection \<open>\<open>AjaxHelper.get\<close>\<close>

text \<open>
  What one \<open>fetch\<close> can do: reject (transport failure), or resolve with a response that has
  the flag \<open>ok\<close>, a status and a body; \<open>response.json()\<close> rejects on a body that is not JSON
  (\<open>None\<close>) and resolves with the parsed data otherwise.
\<close>

datatype 'd fetch_result = FetchRejected | Response bool nat "'d option"

datatype console_msg = Error_en_peticion_GET | Error_en_polling

text \<open>
  The observable actions of a polling session, in the order they happen: a \<open>fetch\<close> of a URL,
  a \<open>console.error\<close>, an action of the caller's callback, and \<open>clearInterval\<close>.
\<close>

datatype 'e poll_event = Fetch string | ConsoleError console_msg | Effect 'e | ClearInterval

text \<open>
  \<open>get(url)\<close> is asynchronous. The call issues the \<open>fetch\<close>; with the default \<open>params = {}\<close>
  the object is truthy, so the URL fetched is \<open>url + '?' + ''\<close>. The rest runs when the
  \<open>fetch\<close> has settled: every failure is logged and thrown again, and a good response gives
  its parsed data.
\<close>

definition AjaxHelper_get_request :: "string \<Rightarrow> 'e poll_event" where
  "AjaxHelper_get_request url = (let fullUrl = url @ ''?'' in Fetch fullUrl)"

definition AjaxHelper_get_response :: "'d fetch_result \<Rightarrow> console_msg list \<times> (js_exn + 'd)" where
  "AjaxHelper_get_response r =
     (case r of
        FetchRejected \<Rightarrow> ([Error_en_peticion_GET], Inl NetworkError)
      | Response ok status body \<Rightarrow>
          if \<not> ok then ([Error_en_peticion_GET], Inl (HttpError status))
          else (case body of
                  None \<Rightarrow> ([Error_en_peticion_GET], Inl SyntaxError)
                | Some data \<Rightarrow> ([], Inr data)))"

subsection \<open>\<open>AjaxHelper.poll\<close>\<close>

text \<open>
  The state of a polling session: the counter \<open>attempts\<close> that the timer callback closes
  over, the interval timer (\<open>Some interval\<close> while it is set, \<open>None\<close> once cleared), the number
  of requests issued and not yet settled, and the actions so far.
\<close>

record 'e poll_state =
  attempts :: int
  timer :: "jsnum option"
  in_flight :: nat
  trace :: "'e poll_event list"

text \<open>
  A callback receives the data and the attempt number; it performs some actions and then
  returns a value, of which only the truthiness is used, or throws.
\<close>

datatype cb_result = Returned bool | Threw

definition clearInterval :: "'e poll_state \<Rightarrow> 'e poll_state" where
  "clearInterval s = s\<lparr>timer := None, trace := trace s @ [ClearInterval]\<rparr>"

text \<open>The timer callback up to its \<open>await\<close>: \<open>attempts++\<close> and the request of \<open>get\<close>.\<close>

definition poll_tick :: "string \<Rightarrow> 'e poll_state \<Rightarrow> 'e poll_state" where
  "poll_tick url s =
     s\<lparr>attempts := attempts s + 1, in_flight := in_flight s + 1,
       trace := trace s @ [AjaxHelper_get_request url]\<rparr>"

text \<open>
  The rest of the \<open>try\<close> block, which runs when the request has settled: the state it leaves
  and the exception it raised, if any. \<open>attempts\<close> is read at this moment.
\<close>

definition poll_try ::
  "('d \<Rightarrow> int \<Rightarrow> 'e list \<times> cb_result) \<Rightarrow> jsnum \<Rightarrow> 'd fetch_result
     \<Rightarrow> 'e poll_state \<Rightarrow> 'e poll_state \<times> js_exn option" where
  "poll_try callback maxAttempts r s =
     (case AjaxHelper_get_response r of
        (logs, Inl error) \<Rightarrow> (s\<lparr>trace := trace s @ map ConsoleError logs\<rparr>, Some error)
      | (logs, Inr data) \<Rightarrow>
          (let s1 = s\<lparr>trace := trace s @ map ConsoleError logs\<rparr> in
           case callback data (attempts s1) of
             (effs, Threw) \<Rightarrow> (s1\<lparr>trace := trace s1 @ map Effect effs\<rparr>, Some CallbackError)
           | (effs, Returned shouldContinue) \<Rightarrow>
               (let s2 = s1\<lparr>trace := trace s1 @ map Effect effs\<rparr> in
                if \<not> shouldContinue \<or> js_ge (attempts s2) maxAttempts
                then (clearInterval s2, None)
                else (s2, None))))"

text \<open>
  The timer callback from its \<open>await\<close> to the end of \<open>try\<close>/\<open>catch\<close>. The second component is
  the exception that escapes the callback.
\<close>

definition poll_resume ::
  "('d \<Rightarrow> int \<Rightarrow> 'e list \<times> cb_result) \<Rightarrow> jsnum \<Rightarrow> 'd fetch_result
     \<Rightarrow> 'e poll_state \<Rightarrow> 'e poll_state \<times> js_exn option" where
  "poll_resume callback maxAttempts r s =
     (case poll_try callback maxAttempts r (s\<lparr>in_flight := in_flight s - 1\<rparr>) of
        (s', None) \<Rightarrow> (s', None)
      | (s', Some error) \<Rightarrow>
          (clearInterval (s'\<lparr>trace := trace s' @ [ConsoleError Error_en_polling]\<rparr>), None))"

text \<open>
  What happens next on the page: the timer fires, or a request in flight settles. A cleared
  timer does not fire. A request settles whether or not the timer is still set; when none is
  in flight the occurrence is impossible (\<open>None\<close>).
\<close>

datatype 'd occurrence = Tick | Settle "'d fetch_result"

definition poll_step ::
  "string \<Rightarrow> ('d \<Rightarrow> int \<Rightarrow> 'e list \<times> cb_result) \<Rightarrow> jsnum \<Rightarrow> 'd occurrence
     \<Rightarrow> 'e poll_state \<Rightarrow> 'e poll_state option" where
  "poll_step url callback maxAttempts ev s =
     (case ev of
        Tick \<Rightarrow> Some (if timer s = None then s else poll_tick url s)
      | Settle r \<Rightarrow>
          if in_flight s = 0 then None
          else Some (fst (poll_resume callback maxAttempts r s)))"

fun poll_run ::
  "string \<Rightarrow> ('d \<Rightarrow> int \<Rightarrow> 'e list \<times> cb_result) \<Rightarrow> jsnum \<Rightarrow> 'd occurrence list
     \<Rightarrow> 'e poll_state \<Rightarrow> 'e poll_state option" where
  "poll_run url callback maxAttempts [] s = Some s"
| "poll_run url callback maxAttempts (ev # evs) s =
     (case poll_step url callback maxAttempts ev s of
        None \<Rightarrow> None
      | Some s' \<Rightarrow> poll_run url callback maxAttempts evs s')"

text \<open>
  \<open>poll(url, callback, interval = 5000, maxAttempts = 60)\<close>: an argument that the caller
  leaves out is \<open>None\<close> and takes its default; an argument given is the number that
  \<open>setInterval\<close> or the comparison \<open>attempts >= maxAttempts\<close> makes of it. The result is the
  state after the given occurrences.
\<close>

definition poll ::
  "string \<Rightarrow> ('d \<Rightarrow> int \<Rightarrow> 'e list \<times> cb_result) \<Rightarrow> jsnum option \<Rightarrow> jsnum option
     \<Rightarrow> 'd occurrence list \<Rightarrow> 'e poll_state option" where
  "poll url callback interval maxAttempts evs =
     poll_run url callback (case maxAttempts of None \<Rightarrow> Finite 60 | Some m \<Rightarrow> m) evs
       \<lparr>attempts = 0,
        timer = Some (case interval of None \<Rightarrow> Finite 5000 | Some i \<Rightarrow> i),
        in_flight = 0, trace = []\<rparr>"

text \<open>
  The results that settled, in order; the schedules in which each request settles before
  the timer fires again; and the schedule of this kind for a list of results.
\<close>

fun settled :: "'d occurrence list \<Rightarrow> 'd fetch_result list" where
  "settled [] = []"
| "settled (Tick # evs) = settled evs"
| "settled (Settle r # evs) = r # settled evs"

fun alternating :: "'d occurrence list \<Rightarrow> bool" where
  "alternating [] = True"
| "alternating [Tick] = True"
| "alternating (Tick # Settle r # evs) = alternating evs"
| "alternating evs = False"

definition sequential :: "'d fetch_result list \<Rightarrow> 'd occurrence list" where
  "sequential rs = concat (map (\<lambda>r. [Tick, Settle r]) rs)"

text \<open>
  Between two attempts of such a schedule no request is in flight, and the counter is below
  a bound \<open>k\<close> while the timer is set.
\<close>

definition between_attempts :: "int \<Rightarrow> 'e poll_state \<Rightarrow> bool" where
  "between_attempts k s =
     (in_flight s = 0 \<and>
      (if timer s = None then attempts s \<le> max 1 k else attempts s = 0 \<or> attempts s < k))"

subsection \<open>\<open>monitorizarEjecucion\<close>\<close>

text \<open>
  The status document of an execution has a field \<open>estado\<close>. The caller's \<open>onUpdate\<close> and
  \<open>onComplete\<close> are recorded as actions; they return normally.
\<close>

record ejecucion =
  estado :: string

datatype 'd monitor_event = OnUpdate 'd | OnComplete 'd

definition monitor_callback ::
  "'a ejecucion_scheme \<Rightarrow> int \<Rightarrow> 'a ejecucion_scheme monitor_event list \<times> cb_result" where
  "monitor_callback data attempts' =
     (if estado data = ''COMPLETADA'' \<or> estado data = ''ERROR''
      then ([OnUpdate data, OnComplete data], Returned False)
      else ([OnUpdate data], Returned True))"

definition monitorizarEjecucion ::
  "string \<Rightarrow> 'a ejecucion_scheme occurrence list
     \<Rightarrow> 'a ejecucion_scheme monitor_event poll_state option" where
  "monitorizarEjecucion ejecucionId evs =
     poll (''/turnos/ajax/ejecucion/'' @ ejecucionId @ ''/estado/'') monitor_callback
       (Some (Finite 5000)) (Some (Finite 120)) evs"

text \<open>The actions of the callback of \<open>monitorizarEjecucion\<close> when a request settles.\<close>

definition monitor_effects ::
  "'a ejecucion_scheme fetch_result \<Rightarrow> 'a ejecucion_scheme monitor_event poll_event list" where
  "monitor_effects r =
     (case AjaxHelper_get_response r of
        (logs, Inl error) \<Rightarrow> []
      | (logs, Inr data) \<Rightarrow> map Effect (fst (monitor_callback data 0)))"

text \<open>A callback without actions that always asks to go on.\<close>

definition continuar :: "unit \<Rightarrow> int \<Rightarrow> unit list \<times> cb_result" where
  "continuar data attempts' = ([], Returned True)"

text \<open>A response that \<open>get\<close> accepts: \<open>ok\<close>, with a JSON body.\<close>

definition ok_json :: "'d \<Rightarrow> 'd fetch_result" where
  "ok_json data = Response True 200 (Some data)"

text \<open>The requests and the callback actions in a trace.\<close>

fun is_Fetch :: "'e poll_event \<Rightarrow> bool" where
  "is_Fetch (Fetch u) = True"
| "is_Fetch e = False"

fun is_OnUpdate :: "'d monitor_event poll_event \<Rightarrow> bool" where
  "is_OnUpdate (Effect (OnUpdate d)) = True"
| "is_OnUpdate e = False"

fun is_OnComplete :: "'d monitor_event poll_event \<Rightarrow> bool" where
  "is_OnComplete (Effect (OnComplete d)) = True"
| "is_OnComplete e = False"

fun is_Effect :: "'e poll_event \<Rightarrow> bool" where
  "is_Effect (Effect e) = True"
| "is_Effect e = False"

section \<open>The constraint form\<close>

subsection \<open>Numbers and parameter values\<close>

text \<open>
  Parameter values of a constraint. The built-in \<open>parseFloat\<close> is a parameter of the
  functions that call it.
\<close>

datatype pval = PNum jsnum | PStr string

text \<open>A number \<open>x\<close> with \<open>0 <= x && x <= 10\<close>; every comparison with \<open>NaN\<close> is false.\<close>

fun in_0_10 :: "jsnum \<Rightarrow> bool" where
  "in_0_10 (Finite x) = (0 \<le> x \<and> x \<le> 10)"
| "in_0_10 n = False"

subsection \<open>The cards of the page\<close>

text \<open>
  An element with a \<open>name\<close> attribute inside a card: its \<open>name\<close>, \<open>type\<close> and \<open>value\<close>.
\<close>

record form_input =
  input_name :: string
  input_type :: string
  input_value :: string

text \<open>
  A card \<open>.restriccion-dura\<close>: its \<open>data-index\<close>, the value of its
  \<open>.restriccion-tipo-select\<close> and the \<open>checked\<close> flag of its first check box (\<open>None\<close> when
  \<open>card.querySelector\<close> finds no such element), and its named elements in document order.
\<close>

record dura_card =
  dura_index :: nat
  dura_tipoSelect :: "string option"
  dura_activaCheck :: "bool option"
  dura_inputs :: "form_input list"

text \<open>
  A card \<open>.restriccion-blanda\<close>: select and check box as before, and the values of the number
  input \<open>.restriccion-blanda-peso\<close> and of the slider \<open>.restriccion-blanda-peso-range\<close>. The
  controls of a card carry the card's \<open>data-index\<close>.
\<close>

record blanda_card =
  blanda_index :: nat
  blanda_tipoSelect :: "string option"
  blanda_pesoInput :: "string option"
  blanda_pesoRange :: "string option"
  blanda_activaCheck :: "bool option"

text \<open>
  The page: the cards in document order, the two hidden fields (\<open>None\<close> when
  \<open>getElementById\<close> finds none), and the messages shown by \<open>alert\<close>.
\<close>

record form_document =
  duras_cards :: "dura_card list"
  blandas_cards :: "blanda_card list"
  restricciones_duras_json :: "string option"
  restricciones_blandas_json :: "string option"
  alerts :: "string list"

subsection \<open>\<open>RestriccionesBlandas.actualizarPeso\<close> and \<open>sincronizarPeso\<close>\<close>

text \<open>
  \<open>document.querySelector\<close> returns the first matching element in document order;
  \<open>update_first\<close> assigns to it, and does nothing when there is none.
\<close>

fun update_first :: "('a \<Rightarrow> bool) \<Rightarrow> ('a \<Rightarrow> 'a) \<Rightarrow> 'a list \<Rightarrow> 'a list" where
  "update_first P f [] = []"
| "update_first P f (x # xs) = (if P x then f x # xs else x # update_first P f xs)"

definition has_pesoInput :: "nat \<Rightarrow> blanda_card \<Rightarrow> bool" where
  "has_pesoInput index c = (blanda_index c = index \<and> blanda_pesoInput c \<noteq> None)"

definition has_pesoRange :: "nat \<Rightarrow> blanda_card \<Rightarrow> bool" where
  "has_pesoRange index c = (blanda_index c = index \<and> blanda_pesoRange c \<noteq> None)"

text \<open>
  Assigning to the \<open>value\<close> of an input runs the value sanitization of its type, and the
  input keeps the result. The two algorithms of the browser are parameters: that of a number
  input, and that of the slider that the card declares with \<open>min="0" max="10" step="0.5"\<close>.
\<close>

definition actualizarPeso ::
  "(string \<Rightarrow> string) \<Rightarrow> nat \<Rightarrow> string \<Rightarrow> form_document \<Rightarrow> form_document" where
  "actualizarPeso sanitize_number index valor document =
     document\<lparr>blandas_cards :=
       update_first (has_pesoInput index)
         (\<lambda>c. c\<lparr>blanda_pesoInput := Some (sanitize_number valor)\<rparr>)
         (blandas_cards document)\<rparr>"

definition sincronizarPeso ::
  "(string \<Rightarrow> string) \<Rightarrow> nat \<Rightarrow> string \<Rightarrow> form_document \<Rightarrow> form_document" where
  "sincronizarPeso sanitize_range index valor document =
     document\<lparr>blandas_cards :=
       update_first (has_pesoRange index)
         (\<lambda>c. c\<lparr>blanda_pesoRange := Some (sanitize_range valor)\<rparr>)
         (blandas_cards document)\<rparr>"

subsection \<open>\<open>serializarRestricciones\<close>\<close>

record restriccion_dura =
  nombre :: string
  activa :: bool
  parametros :: "string \<rightharpoonup> pval"

record restriccion_blanda = restriccion_dura +
  peso :: jsnum

record serialized =
  duras :: "restriccion_dura list"
  blandas :: "restriccion_blanda list"

text \<open>
  The inner \<open>forEach\<close> over the elements matching \<open>[name^="restriccion_dura_param_"]\<close>: the key
  is \<open>input.name.split('_').pop()\<close>, the value is parsed when the input's type is \<open>number\<close>.
  Assigning to a key that is already there replaces its value.
\<close>

definition paramName :: "form_input \<Rightarrow> string" where
  "paramName input = last (split_on CHR ''_'' (input_name input))"

definition paramValue :: "(string \<Rightarrow> jsnum) \<Rightarrow> form_input \<Rightarrow> pval" where
  "paramValue parseFloat input =
     (if input_type input = ''number'' then PNum (parseFloat (input_value input))
      else PStr (input_value input))"

definition is_param_input :: "form_input \<Rightarrow> bool" where
  "is_param_input input = prefix ''restriccion_dura_param_'' (input_name input)"

definition collect_parametros :: "(string \<Rightarrow> jsnum) \<Rightarrow> form_input list \<Rightarrow> (string \<rightharpoonup> pval)" where
  "collect_parametros parseFloat inputs =
     foldl (\<lambda>params input. params(paramName input \<mapsto> paramValue parseFloat input))
       Map.empty (filter is_param_input inputs)"

text \<open>
  The two outer \<open>forEach\<close> loops, with the array built so far. A card without a select, or
  with the empty option selected, is left by the early \<open>return\<close>. Reading \<open>.checked\<close> or
  \<open>.value\<close> of an element that \<open>querySelector\<close> did not find raises a \<open>TypeError\<close>.
\<close>

fun forEach_dura ::
  "(string \<Rightarrow> jsnum) \<Rightarrow> dura_card list \<Rightarrow> restriccion_dura list \<Rightarrow> js_exn + restriccion_dura list" where
  "forEach_dura parseFloat [] acc = Inr acc"
| "forEach_dura parseFloat (card' # cards) acc =
     (case dura_tipoSelect card' of
        None \<Rightarrow> forEach_dura parseFloat cards acc
      | Some tipo \<Rightarrow>
          if tipo = [] then forEach_dura parseFloat cards acc
          else (case dura_activaCheck card' of
                  None \<Rightarrow> Inl TypeError
                | Some checked \<Rightarrow>
                    forEach_dura parseFloat cards
                      (acc @ [\<lparr>nombre = tipo, activa = checked,
                               parametros = collect_parametros parseFloat (dura_inputs card')\<rparr>])))"

fun forEach_blanda ::
  "(string \<Rightarrow> jsnum) \<Rightarrow> blanda_card list \<Rightarrow> restriccion_blanda list \<Rightarrow> js_exn + restriccion_blanda list" where
  "forEach_blanda parseFloat [] acc = Inr acc"
| "forEach_blanda parseFloat (card' # cards) acc =
     (case blanda_tipoSelect card' of
        None \<Rightarrow> forEach_blanda parseFloat cards acc
      | Some tipo \<Rightarrow>
          if tipo = [] then forEach_blanda parseFloat cards acc
          else (case blanda_activaCheck card' of
                  None \<Rightarrow> Inl TypeError
                | Some checked \<Rightarrow>
                    (case blanda_pesoInput card' of
                       None \<Rightarrow> Inl TypeError
                     | Some v \<Rightarrow>
                         forEach_blanda parseFloat cards
                           (acc @ [\<lparr>nombre = tipo, activa = checked, parametros = Map.empty,
                                    peso = parseFloat v\<rparr>]))))"

definition serializarRestricciones :: "(string \<Rightarrow> jsnum) \<Rightarrow> form_document \<Rightarrow> js_exn + serialized" where
  "serializarRestricciones parseFloat document =
     (case forEach_dura parseFloat (duras_cards document) [] of
        Inl e \<Rightarrow> Inl e
      | Inr ds \<Rightarrow>
          (case forEach_blanda parseFloat (blandas_cards document) [] of
             Inl e \<Rightarrow> Inl e
           | Inr bs \<Rightarrow> Inr \<lparr>duras = ds, blandas = bs\<rparr>))"

text \<open>A card of which the select exists and has a non-empty value.\<close>

definition dura_selected :: "dura_card \<Rightarrow> bool" where
  "dura_selected card' = (case dura_tipoSelect card' of None \<Rightarrow> False | Some tipo \<Rightarrow> tipo \<noteq> [])"

definition blanda_selected :: "blanda_card \<Rightarrow> bool" where
  "blanda_selected card' = (case blanda_tipoSelect card' of None \<Rightarrow> False | Some tipo \<Rightarrow> tipo \<noteq> [])"

subsection \<open>\<open>validarRestriccionesFormulario\<close>\<close>

text \<open>The text of the alert, \<open>Debes a[U+00F1]adir al menos una restricci[U+00F3]n dura\<close>.\<close>

definition alerta_sin_duras :: string where
  "alerta_sin_duras =
     ''Debes a'' @ [CHR 0xF1] @ ''adir al menos una restricci'' @ [CHR 0xF3] @ ''n dura''"

text \<open>
  \<open>JSON.stringify\<close> is a parameter, once for each of the two arrays it is applied to. The
  result is the returned flag and the page after the call.
\<close>

definition validarRestriccionesFormulario ::
  "(string \<Rightarrow> jsnum) \<Rightarrow> (restriccion_dura list \<Rightarrow> string) \<Rightarrow> (restriccion_blanda list \<Rightarrow> string)
     \<Rightarrow> form_document \<Rightarrow> js_exn + bool \<times> form_document" where
  "validarRestriccionesFormulario parseFloat stringify_duras stringify_blandas document =
     (case serializarRestricciones parseFloat document of
        Inl e \<Rightarrow> Inl e
      | Inr r \<Rightarrow>
          if length (duras r) = 0
          then Inr (False, document\<lparr>alerts := alerts document @ [alerta_sin_duras]\<rparr>)
          else Inr (True,
                 document\<lparr>restricciones_duras_json :=
                            (case restricciones_duras_json document of
                               None \<Rightarrow> None
                             | Some old \<Rightarrow> Some (stringify_duras (duras r))),
                          restricciones_blandas_json :=
                            (case restricciones_blandas_json document of
                               None \<Rightarrow> None
                             | Some old \<Rightarrow> Some (stringify_blandas (blandas r)))\<rparr>))"

text \<open>
  \<open>parseFloat\<close> on a non-empty string of decimal digits is the number they denote, and on the
  empty string it is \<open>NaN\<close>; \<open>parseFloat_digits\<close> is the built-in on these strings (and \<open>NaN\<close>
  elsewhere).
\<close>

definition digit_value :: "char \<Rightarrow> nat option" where
  "digit_value c = map_of (zip ''0123456789'' [0, 1, 2, 3, 4, 5, 6, 7, 8, 9]) c"

fun digits_value :: "nat \<Rightarrow> string \<Rightarrow> nat option" where
  "digits_value n [] = Some n"
| "digits_value n (c # cs) =
     (case digit_value c of None \<Rightarrow> None | Some d \<Rightarrow> digits_value (10 * n + d) cs)"

definition parseFloat_digits :: "string \<Rightarrow> jsnum" where
  "parseFloat_digits s =
     (if s = [] then NaN
      else (case digits_value 0 s of None \<Rightarrow> NaN | Some n \<Rightarrow> Finite (real n)))"

text \<open>
  The two sanitizations on a non-empty string of decimal digits: a number input keeps it,
  and the slider keeps it when it denotes at most 10 and turns it into \<open>10\<close> otherwise. On a
  string that is no number a number input becomes empty and the slider takes its default,
  the middle of its range. \<open>sanitize_number_digits\<close> and \<open>sanitize_range_digits\<close> are the
  browser's algorithms on strings of decimal digits (elsewhere they give the result for a
  string that is no number).
\<close>

definition digits_number :: "string \<Rightarrow> nat option" where
  "digits_number v = (if v = [] then None else digits_value 0 v)"

definition sanitize_number_digits :: "string \<Rightarrow> string" where
  "sanitize_number_digits v = (case digits_number v of None \<Rightarrow> [] | Some n \<Rightarrow> v)"

definition sanitize_range_digits :: "string \<Rightarrow> string" where
  "sanitize_range_digits v =
     (case digits_number v of None \<Rightarrow> ''5'' | Some n \<Rightarrow> if 10 < n then ''10'' else v)"

subsection \<open>What a card contributes, and example pages\<close>

text \<open>
  The entry that a selected card contributes to its array, and the condition under which
  reading a card raises no \<open>TypeError\<close>.
\<close>

definition dura_entry :: "(string \<Rightarrow> jsnum) \<Rightarrow> dura_card \<Rightarrow> restriccion_dura" where
  "dura_entry parseFloat card' =
     \<lparr>nombre = the (dura_tipoSelect card'), activa = the (dura_activaCheck card'),
      parametros = collect_parametros parseFloat (dura_inputs card')\<rparr>"

definition blanda_entry :: "(string \<Rightarrow> jsnum) \<Rightarrow> blanda_card \<Rightarrow> restriccion_blanda" where
  "blanda_entry parseFloat card' =
     \<lparr>nombre = the (blanda_tipoSelect card'), activa = the (blanda_activaCheck card'),
      parametros = Map.empty, peso = parseFloat (the (blanda_pesoInput card'))\<rparr>"

definition dura_readable :: "dura_card \<Rightarrow> bool" where
  "dura_readable card' = (dura_selected card' \<longrightarrow> dura_activaCheck card' \<noteq> None)"

definition blanda_readable :: "blanda_card \<Rightarrow> bool" where
  "blanda_readable card' =
     (blanda_selected card' \<longrightarrow> blanda_activaCheck card' \<noteq> None \<and> blanda_pesoInput card' \<noteq> None)"

text \<open>
  A hard card as \<open>RestriccionesDuras.agregarRestriccion\<close> and \<open>actualizarParametros\<close> leave it
  after choosing \<open>cobertura_minima\<close>: the check box is checked and there is one number input,
  named after the index and the parameter key, holding the default \<open>1\<close>.
\<close>

definition tarjeta_cobertura_minima :: dura_card where
  "tarjeta_cobertura_minima =
     \<lparr>dura_index = 0, dura_tipoSelect = Some ''cobertura_minima'', dura_activaCheck = Some True,
      dura_inputs =
        [\<lparr>input_name = ''restriccion_dura_param_0_incremento_fines_semana'',
          input_type = ''number'', input_value = ''1''\<rparr>]\<rparr>"

text \<open>A hard card just added: the empty option is selected and there are no parameters.\<close>

definition tarjeta_dura_sin_tipo :: dura_card where
  "tarjeta_dura_sin_tipo =
     \<lparr>dura_index = 1, dura_tipoSelect = Some [], dura_activaCheck = Some True, dura_inputs = []\<rparr>"

text \<open>
  A soft card with \<open>preferencias_turno\<close> chosen (both weight controls at the default \<open>3\<close>), and
  the same card after \<open>15\<close> was typed into its number input.
\<close>

definition tarjeta_preferencias_turno :: blanda_card where
  "tarjeta_preferencias_turno =
     \<lparr>blanda_index = 0, blanda_tipoSelect = Some ''preferencias_turno'',
      blanda_pesoInput = Some ''3'', blanda_pesoRange = Some ''3'',
      blanda_activaCheck = Some True\<rparr>"

definition tarjeta_peso_15 :: blanda_card where
  "tarjeta_peso_15 = tarjeta_preferencias_turno\<lparr>blanda_pesoInput := Some ''15''\<rparr>"

definition pagina_una_dura :: form_document where
  "pagina_una_dura =
     \<lparr>duras_cards = [tarjeta_cobertura_minima], blandas_cards = [],
      restricciones_duras_json = Some [], restricciones_blandas_json = Some [], alerts = []\<rparr>"

definition pagina_peso_15 :: form_document where
  "pagina_peso_15 =
     \<lparr>duras_cards = [], blandas_cards = [tarjeta_peso_15],
      restricciones_duras_json = Some [], restricciones_blandas_json = Some [], alerts = []\<rparr>"

text \<open>
  Two soft cards with the same \<open>data-index\<close>, as the page has them after three cards were
  added, the first was removed and one more was added: \<open>agregarRestriccion\<close> takes the index
  from the length of \<open>restriccionesState.blandas\<close>, which \<open>eliminarRestriccion\<close> shortens. The
  slider of the second card has just been moved to \<open>8\<close>.
\<close>

definition pagina_indice_repetido :: form_document where
  "pagina_indice_repetido =
     \<lparr>duras_cards = [],
      blandas_cards =
        [tarjeta_preferencias_turno\<lparr>blanda_index := 2\<rparr>,
         tarjeta_preferencias_turno\<lparr>blanda_index := 2, blanda_pesoRange := Some ''8''\<rparr>],
      restricciones_duras_json = Some [], restricciones_blandas_json = Some [], alerts = []\<rparr>"

text \<open>The weights of the soft constraints that \<open>serializarRestricciones\<close> returns.\<close>

definition pesos :: "(string \<Rightarrow> jsnum) \<Rightarrow> form_document \<Rightarrow> js_exn + jsnum list" where
  "pesos parseFloat document =
     (case serializarRestricciones parseFloat document of
        Inl e \<Rightarrow> Inl e
      | Inr r \<Rightarrow> Inr (map peso (blandas r)))"

section \<open>Properties of the AJAX helpers\<close>

subsection \<open>Cookies and the CSRF token\<close>

lemma take_eq_prefix: "(take (length xs) ys = xs) = prefix xs ys"
  by (metis append_eq_conv_conj prefix_def)

lemma getCookie_loop_find:
  "getCookie_loop d name cs =
     (case find (prefix (name @ ''='')) (map trim cs) of
        None \<Rightarrow> Inr Null
      | Some entry \<Rightarrow>
          (case d (drop (length (name @ ''='')) entry) of
             None \<Rightarrow> Inl URIError
           | Some v \<Rightarrow> Inr (Str v)))"
proof (induction cs)
  case Nil
  show ?case by simp
next
  case (Cons c cs)
  have "(take (length name + 1) (trim c) = name @ ''='') = prefix (name @ ''='') (trim c)"
    using take_eq_prefix [of "name @ ''=''" "trim c"] by simp
  with Cons show ?case by (simp add: Let_def)
qed

lemma trim_Nil: "trim [] = []"
  by (simp add: trim_def)

lemma getCookie_eq_spec: "getCookie d ck name = getCookie_spec d ck name"
  by (cases "ck = []")
    (simp_all add: getCookie_def getCookie_spec_def cookie_entries_def getCookie_loop_find trim_Nil)

lemma longer_name_no_match:
  assumes "strict_prefix name (entry_name e)"
  shows "\<not> prefix (name @ ''='') e"
proof
  assume p: "prefix (name @ ''='') e"
  from assms obtain r where r: "entry_name e = name @ r" "r \<noteq> []"
    by (auto simp: strict_prefix_def prefix_def)
  have "e = entry_name e @ dropWhile (\<lambda>c. c \<noteq> CHR ''='') e"
    by (simp add: entry_name_def)
  with r have e: "e = name @ r @ dropWhile (\<lambda>c. c \<noteq> CHR ''='') e" by simp
  from p have "prefix (name @ ''='') (name @ r @ dropWhile (\<lambda>c. c \<noteq> CHR ''='') e)"
    using e by simp
  then have "prefix ''='' (r @ dropWhile (\<lambda>c. c \<noteq> CHR ''='') e)" by simp
  with r(2) have "hd r = CHR ''=''" by (cases r) auto
  with r(2) have "CHR ''='' \<in> set (entry_name e)" using r(1) by (cases r) auto
  then show False by (auto simp: entry_name_def dest: set_takeWhileD)
qed

lemma find_None_Null:
  "find (prefix (name @ ''='')) (cookie_entries ck) = None \<Longrightarrow> getCookie d ck name = Inr Null"
  by (simp add: getCookie_eq_spec getCookie_spec_def cookie_entries_def)

text \<open>
  Claim C10. For every cookie string and name, \<open>getCookie\<close> returns the decoded value of the
  first entry, in the order of the string and after trimming, that starts with the name
  followed by \<open>=\<close> (a \<open>URIError\<close> of the decoder propagates), and \<open>null\<close> when the string is
  empty or no entry starts so. An entry whose own name properly extends the name asked for is
  never the match: a string consisting of such entries yields \<open>null\<close>.
\<close>

theorem getCookie_first_match:
  "getCookie d ck name = getCookie_spec d ck name
   \<and> getCookie d [] name = Inr Null
   \<and> ((\<forall>e \<in> set (cookie_entries ck). \<not> prefix (name @ ''='') e) \<longrightarrow> getCookie d ck name = Inr Null)
   \<and> ((\<forall>e \<in> set (cookie_entries ck). strict_prefix name (entry_name e)) \<longrightarrow>
        getCookie d ck name = Inr Null)"
proof -
  have a: "getCookie d ck name = getCookie_spec d ck name" by (rule getCookie_eq_spec)
  have b: "getCookie d [] name = Inr Null" by (simp add: getCookie_def)
  have c: "getCookie d ck name = Inr Null" if "\<forall>e \<in> set (cookie_entries ck). \<not> prefix (name @ ''='') e"
  proof -
    from that have "find (prefix (name @ ''='')) (cookie_entries ck) = None"
      by (simp add: find_None_iff)
    then show ?thesis by (rule find_None_Null)
  qed
  have e: "getCookie d ck name = Inr Null" if "\<forall>e \<in> set (cookie_entries ck). strict_prefix name (entry_name e)"
    using that longer_name_no_match c by blast
  from a b c e show ?thesis by blast
qed

theorem getCookie_first_match_witness:
  "getCookie Some ''sessionid=x1; csrftoken=abc; csrftoken=def'' ''csrftoken'' = Inr (Str ''abc'')
   \<and> getCookie Some ''csrftokenx=abc; csrftoken2=def'' ''csrftoken'' = Inr Null
   \<and> getCookie Some ''sessionid=x1'' ''csrftoken'' = Inr Null"
proof -
  have h1: "\<forall>e \<in> set (cookie_entries ''csrftokenx=abc; csrftoken2=def''). strict_prefix ''csrftoken'' (entry_name e)"
    by (simp add: cookie_entries_def trim_def is_ws_def entry_name_def)
  have h2: "\<forall>e \<in> set (cookie_entries ''sessionid=x1''). \<not> prefix (''csrftoken'' @ ''='') e"
    by (simp add: cookie_entries_def trim_def is_ws_def)
  have s: "getCookie_spec Some ''sessionid=x1; csrftoken=abc; csrftoken=def'' ''csrftoken'' = Inr (Str ''abc'')"
    by (simp add: getCookie_spec_def cookie_entries_def trim_def is_ws_def)
  from getCookie_first_match [of Some "''sessionid=x1; csrftoken=abc; csrftoken=def''" "''csrftoken''"]
    getCookie_first_match [of Some "''csrftokenx=abc; csrftoken2=def''" "''csrftoken''"]
    getCookie_first_match [of Some "''sessionid=x1''" "''csrftoken''"] h1 h2 s
  show ?thesis by metis
qed

text \<open>
  Claim C5. \<open>getCSRFToken\<close> takes the token from the form field \<open>csrfmiddlewaretoken\<close> when it
  has a non-empty value, otherwise from the meta tag \<open>csrf-token\<close> when it has a non-empty
  content, otherwise from the cookie \<open>csrftoken\<close>; it returns \<open>null\<close> when there is no such
  field, no such meta tag and no such cookie.
\<close>

theorem getCSRFToken_priority:
  "(csrf_field doc = Some (Str v) \<and> v \<noteq> [] \<longrightarrow> getCSRFToken d doc = Inr (Str v))
   \<and> (\<not> truthy (opt_chain (csrf_field doc)) \<and> csrf_meta doc = Some (Str c) \<and> c \<noteq> [] \<longrightarrow>
        getCSRFToken d doc = Inr (Str c))
   \<and> (\<not> truthy (opt_chain (csrf_field doc)) \<and> \<not> truthy (opt_chain (csrf_meta doc)) \<longrightarrow>
        getCSRFToken d doc = getCookie d (cookie doc) ''csrftoken'')
   \<and> (csrf_field doc = None \<and> csrf_meta doc = None
        \<and> (\<forall>e \<in> set (cookie_entries (cookie doc)). \<not> prefix ''csrftoken='' e) \<longrightarrow>
        getCSRFToken d doc = Inr Null)"
proof -
  have n: "getCookie d (cookie doc) ''csrftoken'' = Inr Null"
    if "\<forall>e \<in> set (cookie_entries (cookie doc)). \<not> prefix ''csrftoken='' e"
  proof -
    from that have "find (prefix (''csrftoken'' @ ''='')) (cookie_entries (cookie doc)) = None"
      by (simp add: find_None_iff)
    then show ?thesis by (rule find_None_Null)
  qed
  show ?thesis
    using n by (auto simp add: getCSRFToken_def opt_chain_def)
qed

theorem getCSRFToken_priority_witness:
  "getCSRFToken Some \<lparr>csrf_field = Some (Str ''f1''), csrf_meta = Some (Str ''m1''), cookie = ''csrftoken=c1''\<rparr>
     = Inr (Str ''f1'')
   \<and> getCSRFToken Some \<lparr>csrf_field = Some (Str []), csrf_meta = Some (Str ''m1''), cookie = ''csrftoken=c1''\<rparr>
     = Inr (Str ''m1'')
   \<and> getCSRFToken Some \<lparr>csrf_field = None, csrf_meta = None, cookie = ''a=1; csrftoken=c1''\<rparr>
     = Inr (Str ''c1'')
   \<and> getCSRFToken Some \<lparr>csrf_field = None, csrf_meta = None, cookie = ''sessionid=x1''\<rparr>
     = Inr Null"
proof -
  let ?d1 = "\<lparr>csrf_field = Some (Str ''f1''), csrf_meta = Some (Str ''m1''), cookie = ''csrftoken=c1''\<rparr>"
  let ?d2 = "\<lparr>csrf_field = Some (Str []), csrf_meta = Some (Str ''m1''), cookie = ''csrftoken=c1''\<rparr>"
  let ?d3 = "\<lparr>csrf_field = None, csrf_meta = None, cookie = ''a=1; csrftoken=c1''\<rparr>"
  let ?d4 = "\<lparr>csrf_field = None, csrf_meta = None, cookie = ''sessionid=x1''\<rparr>"
  have h1: "csrf_field ?d1 = Some (Str ''f1'') \<and> ''f1'' \<noteq> []" by simp
  have h2: "\<not> truthy (opt_chain (csrf_field ?d2)) \<and> csrf_meta ?d2 = Some (Str ''m1'') \<and> ''m1'' \<noteq> []"
    by (simp add: opt_chain_def)
  have h3: "\<not> truthy (opt_chain (csrf_field ?d3)) \<and> \<not> truthy (opt_chain (csrf_meta ?d3))"
    by (simp add: opt_chain_def)
  have c3: "getCookie Some (cookie ?d3) ''csrftoken'' = Inr (Str ''c1'')"
    by (simp add: getCookie_def trim_def is_ws_def)
  have h4: "csrf_field ?d4 = None \<and> csrf_meta ?d4 = None
        \<and> (\<forall>e \<in> set (cookie_entries (cookie ?d4)). \<not> prefix ''csrftoken='' e)"
    by (simp add: cookie_entries_def trim_def is_ws_def)
  from getCSRFToken_priority [of ?d1 "''f1''" Some] getCSRFToken_priority [of ?d2 _ Some "''m1''"]
    getCSRFToken_priority [of ?d3 _ Some] getCSRFToken_priority [of ?d4 _ Some] h1 h2 h3 c3 h4
  show ?thesis by metis
qed

subsection \<open>Polling\<close>

lemma poll_run_append:
  "poll_run url cb m (xs @ ys) s =
     (case poll_run url cb m xs s of None \<Rightarrow> None | Some s' \<Rightarrow> poll_run url cb m ys s')"
  by (induction xs arbitrary: s) (simp_all split: option.splits)

lemma poll_resume_no_throw: "snd (poll_resume cb m r s) = None"
  by (simp add: poll_resume_def split: prod.splits option.splits)

lemma poll_resume_attempts: "attempts (fst (poll_resume cb m r s)) = attempts s"
  by (simp add: poll_resume_def poll_try_def clearInterval_def Let_def
      split: prod.splits option.splits sum.splits cb_result.splits)

lemma poll_resume_in_flight: "in_flight (fst (poll_resume cb m r s)) = in_flight s - 1"
  by (simp add: poll_resume_def poll_try_def clearInterval_def Let_def
      split: prod.splits option.splits sum.splits cb_result.splits)

lemma filter_is_Fetch_Effect: "filter is_Fetch (map Effect xs) = []"
  by (induction xs) simp_all

lemma filter_is_Fetch_ConsoleError: "filter is_Fetch (map ConsoleError xs) = []"
  by (induction xs) simp_all

lemma poll_resume_fetches:
  "filter is_Fetch (trace (fst (poll_resume cb m r s))) = filter is_Fetch (trace s)"
  by (simp add: poll_resume_def poll_try_def clearInterval_def Let_def
      filter_is_Fetch_Effect filter_is_Fetch_ConsoleError
      split: prod.splits option.splits sum.splits cb_result.splits)

lemma poll_resume_timer:
  "timer (fst (poll_resume cb m r s)) \<noteq> None \<Longrightarrow> timer s \<noteq> None \<and> \<not> js_ge (attempts s) m"
  by (auto simp add: poll_resume_def poll_try_def clearInterval_def Let_def
      split: prod.splits option.splits sum.splits cb_result.splits if_splits)

lemma poll_step_stopped:
  assumes "timer s = None" and "poll_step url cb m ev s = Some s'"
  shows "timer s' = None \<and> attempts s' = attempts s
       \<and> filter is_Fetch (trace s') = filter is_Fetch (trace s)"
proof (cases ev)
  case Tick
  with assms show ?thesis by (simp add: poll_step_def)
next
  case (Settle r)
  with assms(2) have s': "s' = fst (poll_resume cb m r s)"
    by (simp add: poll_step_def split: if_splits)
  from poll_resume_timer [of cb m r s] assms(1) have "timer s' = None" unfolding s' by blast
  then show ?thesis
    unfolding s' by (simp add: poll_resume_attempts poll_resume_fetches)
qed

lemma poll_run_stopped:
  "timer s = None \<Longrightarrow> poll_run url cb m evs s = Some s' \<Longrightarrow>
   timer s' = None \<and> attempts s' = attempts s
   \<and> filter is_Fetch (trace s') = filter is_Fetch (trace s)"
proof (induction evs arbitrary: s)
  case Nil
  then show ?case by simp
next
  case (Cons ev evs)
  from Cons.prems(2) obtain s1 where s1: "poll_step url cb m ev s = Some s1"
    and run: "poll_run url cb m evs s1 = Some s'"
    by (auto split: option.splits)
  from poll_step_stopped [OF Cons.prems(1) s1] Cons.IH [OF _ run] show ?case by simp
qed

lemma poll_step_count:
  assumes "poll_step url cb m ev s = Some s'"
    and "int (length (filter is_Fetch (trace s))) = attempts s"
  shows "int (length (filter is_Fetch (trace s'))) = attempts s'"
proof (cases ev)
  case Tick
  with assms show ?thesis
    by (auto simp add: poll_step_def poll_tick_def AjaxHelper_get_request_def split: if_splits)
next
  case (Settle r)
  with assms(1) have "s' = fst (poll_resume cb m r s)"
    by (simp add: poll_step_def split: if_splits)
  with assms(2) show ?thesis by (simp add: poll_resume_attempts poll_resume_fetches)
qed

lemma poll_run_count:
  "poll_run url cb m evs s = Some s' \<Longrightarrow>
   int (length (filter is_Fetch (trace s))) = attempts s \<Longrightarrow>
   int (length (filter is_Fetch (trace s'))) = attempts s'"
proof (induction evs arbitrary: s)
  case Nil
  then show ?case by simp
next
  case (Cons ev evs)
  from Cons.prems(1) obtain s1 where s1: "poll_step url cb m ev s = Some s1"
    and run: "poll_run url cb m evs s1 = Some s'"
    by (auto split: option.splits)
  from Cons.IH [OF run poll_step_count [OF s1 Cons.prems(2)]] show ?case .
qed

lemma attempt_keeps_between:
  assumes "between_attempts k s" and "timer s \<noteq> None"
    and cap: "\<And>a. \<not> js_ge a m \<Longrightarrow> a < k"
  shows "between_attempts k (fst (poll_resume cb m r (poll_tick url s)))"
proof -
  let ?s1 = "poll_tick url s"
  let ?s2 = "fst (poll_resume cb m r ?s1)"
  have a: "attempts ?s2 = attempts s + 1" and f: "in_flight ?s2 = 0"
    using assms(1)
    by (simp_all add: poll_resume_attempts poll_resume_in_flight poll_tick_def between_attempts_def)
  from assms(1,2) have b: "attempts s = 0 \<or> attempts s < k" by (simp add: between_attempts_def)
  show ?thesis
  proof (cases "timer ?s2 = None")
    case True
    with a f b show ?thesis by (auto simp add: between_attempts_def)
  next
    case False
    from poll_resume_timer [OF False] have "\<not> js_ge (attempts s + 1) m" by (simp add: poll_tick_def)
    then have "attempts s + 1 < k" by (rule cap)
    with a f False show ?thesis by (auto simp add: between_attempts_def)
  qed
qed

lemma alternating_bound:
  assumes cap: "\<And>a. \<not> js_ge a m \<Longrightarrow> a < k"
  shows "alternating evs \<Longrightarrow> between_attempts k s \<Longrightarrow> poll_run url cb m evs s = Some s' \<Longrightarrow>
   attempts s' \<le> max 1 k"
proof (induction evs arbitrary: s rule: alternating.induct)
  case 1
  then show ?case by (auto simp add: between_attempts_def split: if_splits)
next
  case 2
  then show ?case
    by (auto simp add: between_attempts_def poll_step_def poll_tick_def split: if_splits)
next
  case (3 r evs)
  show ?case
  proof (cases "timer s = None")
    case True
    with "3.prems" show ?thesis
      by (simp add: poll_step_def between_attempts_def)
  next
    case False
    with "3.prems"(3)
    have run: "poll_run url cb m evs (fst (poll_resume cb m r (poll_tick url s))) = Some s'"
      by (simp add: poll_step_def poll_tick_def split: if_splits)
    from "3.IH" [OF _ attempt_keeps_between [OF "3.prems"(2) False cap] run] "3.prems"(1)
    show ?thesis by simp
  qed
qed simp_all

lemma poll_run_cap:
  assumes "\<And>a. \<not> js_ge a m \<Longrightarrow> a < k" and "alternating evs"
    and "poll_run url cb m evs \<lparr>attempts = 0, timer = Some i, in_flight = 0, trace = []\<rparr> = Some s"
  shows "attempts s \<le> max 1 k"
proof -
  have "between_attempts k \<lparr>attempts = 0, timer = Some i, in_flight = 0, trace = []\<rparr>"
    by (simp add: between_attempts_def)
  from alternating_bound [where m = m and k = k, OF assms(1) assms(2) this assms(3)]
  show ?thesis .
qed

lemma Finite_cap: "\<not> js_ge a (Finite x) \<Longrightarrow> a < \<lceil>x\<rceil>"
  by (simp add: less_ceiling_iff)

lemma NegInfinity_cap: "\<not> js_ge a NegInfinity \<Longrightarrow> a < 1"
  by simp

lemma no_cap_attempt:
  assumes never: "\<And>a. \<not> js_ge a m" and go: "\<And>d n. snd (cb d n) = Returned True"
    and set: "timer s \<noteq> None"
  shows "\<exists>s'. poll_run url cb m [Tick, Settle (ok_json d)] s = Some s'
           \<and> attempts s' = attempts s + 1 \<and> timer s' = timer s"
proof -
  let ?s1 = "poll_tick url s"
  obtain effs where cb: "cb d (attempts s + 1) = (effs, Returned True)"
    using go [of d "attempts s + 1"] by (cases "cb d (attempts s + 1)") simp
  have tick: "poll_step url cb m Tick s = Some ?s1"
    using set by (auto simp add: poll_step_def)
  have s1: "attempts ?s1 = attempts s + 1" "timer ?s1 = timer s" "in_flight ?s1 \<noteq> 0"
    by (simp_all add: poll_tick_def)
  have "poll_try cb m (ok_json d) (?s1\<lparr>in_flight := in_flight ?s1 - 1\<rparr>) =
          (?s1\<lparr>in_flight := in_flight ?s1 - 1,
               trace := trace ?s1 @ map Effect effs\<rparr>, None)"
    using cb never [of "attempts s + 1"] s1(1)
    by (simp add: poll_try_def ok_json_def AjaxHelper_get_response_def Let_def)
  then have "fst (poll_resume cb m (ok_json d) ?s1) =
          ?s1\<lparr>in_flight := in_flight ?s1 - 1, trace := trace ?s1 @ map Effect effs\<rparr>"
    by (simp add: poll_resume_def)
  then have "poll_step url cb m (Settle (ok_json d)) ?s1 =
          Some (?s1\<lparr>in_flight := in_flight ?s1 - 1, trace := trace ?s1 @ map Effect effs\<rparr>)"
    using s1(3) by (simp add: poll_step_def)
  with tick s1 show ?thesis by simp
qed

lemma no_cap_run:
  assumes never: "\<And>a. \<not> js_ge a m" and go: "\<And>d n. snd (cb d n) = Returned True"
  shows "timer s \<noteq> None \<Longrightarrow>
         \<exists>s'. poll_run url cb m (sequential (map ok_json ds)) s = Some s'
           \<and> attempts s' = attempts s + int (length ds) \<and> timer s' = timer s"
proof (induction ds arbitrary: s)
  case Nil
  show ?case by (simp add: sequential_def)
next
  case (Cons d ds)
  from no_cap_attempt [where cb = cb and m = m and s = s and url = url and d = d,
      OF never go Cons.prems]
  obtain s1 where s1: "poll_run url cb m [Tick, Settle (ok_json d)] s = Some s1"
    "attempts s1 = attempts s + 1" "timer s1 = timer s" by blast
  with Cons.prems have "timer s1 \<noteq> None" by simp
  from Cons.IH [OF this] obtain s' where s': 
    "poll_run url cb m (sequential (map ok_json ds)) s1 = Some s'"
    "attempts s' = attempts s1 + int (length ds)" "timer s' = timer s1" by blast
  have "sequential (map ok_json (d # ds)) =
      [Tick, Settle (ok_json d)] @ sequential (map ok_json ds)"
    by (simp add: sequential_def)
  then have "poll_run url cb m (sequential (map ok_json (d # ds))) s = Some s'"
    using s1(1) s'(1) by (simp only: poll_run_append option.case)
  with s1 s' show ?case by simp
qed

lemma poll_resume_falsy:
  assumes "snd (cb d (attempts s)) = Returned False"
  shows "timer (fst (poll_resume cb m (Response True st (Some d)) s)) = None"
  using assms
  by (auto simp add: poll_resume_def poll_try_def clearInterval_def Let_def
      AjaxHelper_get_response_def split: prod.splits cb_result.splits)

lemma poll_resume_failure:
  assumes "snd (AjaxHelper_get_response r) = Inl e"
  shows "poll_resume cb m r s =
           (s\<lparr>in_flight := in_flight s - 1, timer := None,
              trace := trace s @ [ConsoleError Error_en_peticion_GET,
                                  ConsoleError Error_en_polling, ClearInterval]\<rparr>, None)"
  using assms
  by (auto simp add: poll_resume_def poll_try_def AjaxHelper_get_response_def clearInterval_def
      split: fetch_result.splits option.splits if_splits)

lemma monitor_callback_terminal:
  "estado d = ''COMPLETADA'' \<or> estado d = ''ERROR'' \<Longrightarrow> snd (monitor_callback d n) = Returned False"
  by (auto simp add: monitor_callback_def)

lemma filter_is_Effect_ConsoleError: "filter is_Effect (map ConsoleError xs) = []"
  by (induction xs) simp_all

lemma filter_is_Effect_Effect: "filter is_Effect (map Effect xs) = map Effect xs"
  by (induction xs) simp_all

lemma monitor_resume_effects:
  "filter is_Effect (trace (fst (poll_resume monitor_callback m r s))) =
     filter is_Effect (trace s) @ monitor_effects r"
  by (auto simp add: poll_resume_def poll_try_def clearInterval_def Let_def monitor_effects_def
      monitor_callback_def filter_is_Effect_ConsoleError
      split: prod.splits option.splits sum.splits cb_result.splits)

lemma monitor_run_effects:
  "poll_run url monitor_callback m evs s = Some s' \<Longrightarrow>
   filter is_Effect (trace s') = filter is_Effect (trace s) @ concat (map monitor_effects (settled evs))"
proof (induction evs arbitrary: s)
  case Nil
  then show ?case by simp
next
  case (Cons ev evs)
  from Cons.prems obtain s1 where s1: "poll_step url monitor_callback m ev s = Some s1"
    and run: "poll_run url monitor_callback m evs s1 = Some s'"
    by (auto split: option.splits)
  show ?case
  proof (cases ev)
    case Tick
    with s1 have "filter is_Effect (trace s1) = filter is_Effect (trace s)"
      by (auto simp add: poll_step_def poll_tick_def AjaxHelper_get_request_def split: if_splits)
    with Cons.IH [OF run] Tick show ?thesis by simp
  next
    case (Settle r)
    with s1 have "s1 = fst (poll_resume monitor_callback m r s)"
      by (simp add: poll_step_def split: if_splits)
    with Cons.IH [OF run] Settle show ?thesis by (simp add: monitor_resume_effects)
  qed
qed

lemma settled_set: "r \<in> set (settled evs) \<Longrightarrow> Settle r \<in> set evs"
  by (induction evs rule: settled.induct) auto

lemma poll_run_falsy_stops:
  "poll_run url cb m evs s = Some s' \<Longrightarrow> Settle (Response True st (Some d)) \<in> set evs \<Longrightarrow>
   (\<And>n. snd (cb d n) = Returned False) \<Longrightarrow> timer s' = None"
proof (induction evs arbitrary: s)
  case Nil
  then show ?case by simp
next
  case (Cons ev evs)
  from Cons.prems(1) obtain s1 where s1: "poll_step url cb m ev s = Some s1"
    and run: "poll_run url cb m evs s1 = Some s'"
    by (auto split: option.splits)
  show ?case
  proof (cases "ev = Settle (Response True st (Some d))")
    case True
    with s1 have "s1 = fst (poll_resume cb m (Response True st (Some d)) s)"
      by (simp add: poll_step_def split: if_splits)
    then have "timer s1 = None"
      using poll_resume_falsy [of cb d s m st] Cons.prems(3) [of "attempts s"] by simp
    from poll_run_stopped [OF this run] show ?thesis by simp
  next
    case False
    with Cons.prems(2) have "Settle (Response True st (Some d)) \<in> set evs" by simp
    from Cons.IH [OF run this Cons.prems(3)] show ?thesis .
  qed
qed

lemma alternating_sequential:
  "alternating evs \<Longrightarrow> evs = sequential (settled evs) \<or> evs = sequential (settled evs) @ [Tick]"
  by (induction evs rule: alternating.induct) (simp_all add: sequential_def)

lemma filter_is_OnUpdate_Effect: "filter is_OnUpdate (filter is_Effect xs) = filter is_OnUpdate xs"
proof (induction xs)
  case Nil
  show ?case by simp
next
  case (Cons x xs)
  then show ?case by (cases x) simp_all
qed

lemma filter_is_OnComplete_Effect: "filter is_OnComplete (filter is_Effect xs) = filter is_OnComplete xs"
proof (induction xs)
  case Nil
  show ?case by simp
next
  case (Cons x xs)
  then show ?case by (cases x) simp_all
qed

text \<open>
  Claim C1. In every run of \<open>monitorizarEjecucion\<close> in which the answers that settle are
  \<open>PENDIENTE\<close> three times and then \<open>COMPLETADA\<close>, \<open>onUpdate\<close> is called four times, once per
  answer and in order, \<open>onComplete\<close> is called once, with the last answer, and the timer is
  cleared; whatever happens afterwards, no further request is issued. When each request
  settles before the timer fires again, four requests have been issued.
\<close>

theorem monitorizar_pendiente3_completada:
  assumes "estado p1 = ''PENDIENTE''" "estado p2 = ''PENDIENTE''" "estado p3 = ''PENDIENTE''"
    and "estado c = ''COMPLETADA''"
    and "settled evs = [ok_json p1, ok_json p2, ok_json p3, ok_json c]"
    and "monitorizarEjecucion eid evs = Some s"
  shows "filter is_Effect (trace s) =
           [Effect (OnUpdate p1), Effect (OnUpdate p2), Effect (OnUpdate p3),
            Effect (OnUpdate c), Effect (OnComplete c)]
       \<and> length (filter is_OnUpdate (trace s)) = 4
       \<and> length (filter is_OnComplete (trace s)) = 1
       \<and> timer s = None
       \<and> (monitorizarEjecucion eid (evs @ later) = Some s' \<longrightarrow>
            filter is_Fetch (trace s') = filter is_Fetch (trace s))
       \<and> (alternating evs \<longrightarrow> length (filter is_Fetch (trace s)) = 4)"
proof -
  let ?url = "''/turnos/ajax/ejecucion/'' @ eid @ ''/estado/''"
  let ?init = "\<lparr>attempts = 0, timer = Some (Finite 5000), in_flight = 0,
                 trace = ([] :: 'a ejecucion_scheme monitor_event poll_event list)\<rparr>"
  have run: "poll_run ?url monitor_callback (Finite 120) evs ?init = Some s"
    using assms(6) by (simp add: monitorizarEjecucion_def poll_def)
  have eff: "filter is_Effect (trace s) =
           [Effect (OnUpdate p1), Effect (OnUpdate p2), Effect (OnUpdate p3),
            Effect (OnUpdate c), Effect (OnComplete c)]"
    using monitor_run_effects [OF run] assms(1-5)
    by (simp add: monitor_effects_def AjaxHelper_get_response_def ok_json_def monitor_callback_def)
  have "filter is_OnUpdate (trace s) = filter is_OnUpdate (filter is_Effect (trace s))"
    by (simp only: filter_is_OnUpdate_Effect)
  then have upd: "length (filter is_OnUpdate (trace s)) = 4"
    by (simp add: eff)
  have "filter is_OnComplete (trace s) = filter is_OnComplete (filter is_Effect (trace s))"
    by (simp only: filter_is_OnComplete_Effect)
  then have com: "length (filter is_OnComplete (trace s)) = 1"
    by (simp add: eff)
  have "ok_json c \<in> set (settled evs)" using assms(5) by simp
  then have "Settle (Response True 200 (Some c)) \<in> set evs"
    using settled_set [of "ok_json c" evs] by (simp add: ok_json_def)
  from poll_run_falsy_stops [OF run this] assms(4)
  have stop: "timer s = None" by (simp add: monitor_callback_def)
  have ext: "filter is_Fetch (trace s') = filter is_Fetch (trace s)"
    if "monitorizarEjecucion eid (evs @ later) = Some s'"
  proof -
    from that run have "poll_run ?url monitor_callback (Finite 120) later s = Some s'"
      by (simp add: monitorizarEjecucion_def poll_def poll_run_append)
    from poll_run_stopped [OF stop this] show ?thesis by simp
  qed
  have four: "length (filter is_Fetch (trace s)) = 4" if "alternating evs"
  proof -
    let ?seq = "[Tick, Settle (ok_json p1), Tick, Settle (ok_json p2),
                 Tick, Settle (ok_json p3), Tick, Settle (ok_json c)]"
    from alternating_sequential [OF that] assms(5)
    have "evs = ?seq \<or> evs = ?seq @ [Tick]" by (simp add: sequential_def)
    then show ?thesis
      using run assms(1-4)
      by (auto simp add: poll_step_def poll_tick_def poll_resume_def poll_try_def
          AjaxHelper_get_request_def AjaxHelper_get_response_def ok_json_def monitor_callback_def
          clearInterval_def Let_def)
  qed
  from eff upd com stop ext four show ?thesis by blast
qed

theorem monitorizar_pendiente3_completada_witness:
  "monitorizarEjecucion ''42''
     [Tick, Settle (ok_json \<lparr>estado = ''PENDIENTE''\<rparr>),
      Tick, Settle (ok_json \<lparr>estado = ''PENDIENTE''\<rparr>),
      Tick, Settle (ok_json \<lparr>estado = ''PENDIENTE''\<rparr>),
      Tick, Settle (ok_json \<lparr>estado = ''COMPLETADA''\<rparr>), Tick] =
   Some \<lparr>attempts = 4, timer = None, in_flight = 0,
         trace =
           [Fetch ''/turnos/ajax/ejecucion/42/estado/?'',
            Effect (OnUpdate \<lparr>estado = ''PENDIENTE''\<rparr>),
            Fetch ''/turnos/ajax/ejecucion/42/estado/?'',
            Effect (OnUpdate \<lparr>estado = ''PENDIENTE''\<rparr>),
            Fetch ''/turnos/ajax/ejecucion/42/estado/?'',
            Effect (OnUpdate \<lparr>estado = ''PENDIENTE''\<rparr>),
            Fetch ''/turnos/ajax/ejecucion/42/estado/?'',
            Effect (OnUpdate \<lparr>estado = ''COMPLETADA''\<rparr>),
            Effect (OnComplete \<lparr>estado = ''COMPLETADA''\<rparr>), ClearInterval]\<rparr>
   \<and> monitorizarEjecucion ''42''
     [Tick, Tick, Settle (ok_json \<lparr>estado = ''PENDIENTE''\<rparr>),
      Settle (ok_json \<lparr>estado = ''PENDIENTE''\<rparr>),
      Tick, Settle (ok_json \<lparr>estado = ''PENDIENTE''\<rparr>),
      Tick, Settle (ok_json \<lparr>estado = ''COMPLETADA''\<rparr>), Tick] =
   Some \<lparr>attempts = 4, timer = None, in_flight = 0,
         trace =
           [Fetch ''/turnos/ajax/ejecucion/42/estado/?'',
            Fetch ''/turnos/ajax/ejecucion/42/estado/?'',
            Effect (OnUpdate \<lparr>estado = ''PENDIENTE''\<rparr>),
            Effect (OnUpdate \<lparr>estado = ''PENDIENTE''\<rparr>),
            Fetch ''/turnos/ajax/ejecucion/42/estado/?'',
            Effect (OnUpdate \<lparr>estado = ''PENDIENTE''\<rparr>),
            Fetch ''/turnos/ajax/ejecucion/42/estado/?'',
            Effect (OnUpdate \<lparr>estado = ''COMPLETADA''\<rparr>),
            Effect (OnComplete \<lparr>estado = ''COMPLETADA''\<rparr>), ClearInterval]\<rparr>"
proof -
  let ?P = "\<lparr>estado = ''PENDIENTE''\<rparr>" and ?C = "\<lparr>estado = ''COMPLETADA''\<rparr>"
  let ?u = "''/turnos/ajax/ejecucion/42/estado/?''"
  let ?evs1 = "[Tick, Settle (ok_json ?P), Tick, Settle (ok_json ?P), Tick, Settle (ok_json ?P),
                Tick, Settle (ok_json ?C), Tick]"
  let ?evs2 = "[Tick, Tick, Settle (ok_json ?P), Settle (ok_json ?P), Tick, Settle (ok_json ?P),
                Tick, Settle (ok_json ?C), Tick]"
  let ?s1 = "\<lparr>attempts = 4, timer = None, in_flight = 0,
         trace =
           [Fetch ?u, Effect (OnUpdate ?P), Fetch ?u, Effect (OnUpdate ?P),
            Fetch ?u, Effect (OnUpdate ?P), Fetch ?u, Effect (OnUpdate ?C),
            Effect (OnComplete ?C), ClearInterval]\<rparr>"
  let ?s2 = "\<lparr>attempts = 4, timer = None, in_flight = 0,
         trace =
           [Fetch ?u, Fetch ?u, Effect (OnUpdate ?P), Effect (OnUpdate ?P),
            Fetch ?u, Effect (OnUpdate ?P), Fetch ?u, Effect (OnUpdate ?C),
            Effect (OnComplete ?C), ClearInterval]\<rparr>"
  have p: "estado ?P = ''PENDIENTE''" and c: "estado ?C = ''COMPLETADA''" by simp_all
  have st1: "settled ?evs1 = [ok_json ?P, ok_json ?P, ok_json ?P, ok_json ?C]" by simp
  have st2: "settled ?evs2 = [ok_json ?P, ok_json ?P, ok_json ?P, ok_json ?C]" by simp
  have run1: "monitorizarEjecucion ''42'' ?evs1 = Some ?s1"
    by (simp add: monitorizarEjecucion_def poll_def poll_step_def poll_tick_def poll_resume_def
        poll_try_def AjaxHelper_get_request_def AjaxHelper_get_response_def ok_json_def
        monitor_callback_def clearInterval_def Let_def)
  have run2: "monitorizarEjecucion ''42'' ?evs2 = Some ?s2"
    by (simp add: monitorizarEjecucion_def poll_def poll_step_def poll_tick_def poll_resume_def
        poll_try_def AjaxHelper_get_request_def AjaxHelper_get_response_def ok_json_def
        monitor_callback_def clearInterval_def Let_def)
  from monitorizar_pendiente3_completada [OF p p p c st1 run1]
    monitorizar_pendiente3_completada [OF p p p c st2 run2] run1 run2
  show ?thesis by simp
qed

text \<open>
  Claim C2, as the code has it. Let \<open>n\<close> be the number that the comparison
  \<open>attempts >= maxAttempts\<close> makes of \<open>maxAttempts\<close>. When each request settles before the timer
  fires again, \<open>poll\<close> makes at most \<open>max(1, ceiling(n))\<close> attempts for a finite \<open>n\<close> (60 by
  default) and one attempt for \<open>-Infinity\<close>, one request each; for \<open>NaN\<close> and \<open>+Infinity\<close> the cap
  never clears the timer: with a callback that always asks to go on, every tick is an
  attempt. A callback that returns a falsy value clears the timer, and once the timer is
  cleared no request is issued and the count stays. \<open>monitorizarEjecucion\<close> polls every
  5000 ms, makes under the same condition at most 120 attempts, and its timer is cleared
  once an answer \<open>COMPLETADA\<close> or \<open>ERROR\<close> has settled.
\<close>

theorem poll_attempt_cap:
  fixes cb :: "'d \<Rightarrow> int \<Rightarrow> 'e list \<times> cb_result"
    and dm :: "'a ejecucion_scheme"
  shows
  "(alternating evs \<and> poll url cb (Some interval) (Some (Finite x)) evs = Some s \<longrightarrow>
      attempts s \<le> max 1 \<lceil>x\<rceil>)
   \<and> (alternating evs \<and> poll url cb (Some interval) (Some NegInfinity) evs = Some s \<longrightarrow>
        attempts s \<le> 1)
   \<and> ((m = NaN \<or> m = PosInfinity) \<and> (\<forall>d n. snd (cb d n) = Returned True) \<longrightarrow>
        map_option attempts (poll url cb (Some interval) (Some m) (sequential (map ok_json ds))) =
          Some (int (length ds))
        \<and> map_option timer (poll url cb (Some interval) (Some m) (sequential (map ok_json ds))) =
          Some (Some interval))
   \<and> (alternating evs \<and> poll url cb (Some interval) None evs = Some s \<longrightarrow> attempts s \<le> 60)
   \<and> (poll url cb (Some interval) (Some m) evs = Some s \<longrightarrow>
        int (length (filter is_Fetch (trace s))) = attempts s)
   \<and> (snd (cb d (attempts t)) = Returned False \<longrightarrow>
        timer (fst (poll_resume cb m (Response True st (Some d)) t)) = None)
   \<and> (timer t = None \<and> poll_run url cb m evs t = Some t' \<longrightarrow>
        timer t' = None \<and> attempts t' = attempts t
        \<and> filter is_Fetch (trace t') = filter is_Fetch (trace t))
   \<and> monitorizarEjecucion eid [] =
        Some \<lparr>attempts = 0, timer = Some (Finite 5000), in_flight = 0, trace = []\<rparr>
   \<and> (alternating mevs \<and> monitorizarEjecucion eid mevs = Some ms \<longrightarrow> attempts ms \<le> 120)
   \<and> (monitorizarEjecucion eid mevs = Some ms \<and> Settle (ok_json dm) \<in> set mevs
        \<and> (estado dm = ''COMPLETADA'' \<or> estado dm = ''ERROR'') \<longrightarrow> timer ms = None)"
proof -
  have c1: "attempts s \<le> max 1 \<lceil>x\<rceil>"
    if "alternating evs" "poll url cb (Some interval) (Some (Finite x)) evs = Some s"
  proof -
    from that(2) have "poll_run url cb (Finite x) evs
        \<lparr>attempts = 0, timer = Some interval, in_flight = 0, trace = []\<rparr> = Some s"
      by (simp add: poll_def)
    from poll_run_cap [where m = "Finite x" and k = "\<lceil>x\<rceil>", OF Finite_cap that(1) this]
    show ?thesis .
  qed
  have c1n: "attempts s \<le> 1"
    if "alternating evs" "poll url cb (Some interval) (Some NegInfinity) evs = Some s"
  proof -
    from that(2) have "poll_run url cb NegInfinity evs
        \<lparr>attempts = 0, timer = Some interval, in_flight = 0, trace = []\<rparr> = Some s"
      by (simp add: poll_def)
    from poll_run_cap [where m = NegInfinity and k = 1, OF NegInfinity_cap that(1) this]
    show ?thesis by simp
  qed
  have c1u: "map_option attempts (poll url cb (Some interval) (Some m) (sequential (map ok_json ds))) =
          Some (int (length ds))
        \<and> map_option timer (poll url cb (Some interval) (Some m) (sequential (map ok_json ds))) =
          Some (Some interval)"
    if "m = NaN \<or> m = PosInfinity" "\<forall>d n. snd (cb d n) = Returned True"
  proof -
    from that(1) have never: "\<And>a. \<not> js_ge a m" by auto
    from that(2) have go: "\<And>d n. snd (cb d n) = Returned True" by blast
    have "timer \<lparr>attempts = 0, timer = Some interval, in_flight = 0,
                 trace = ([] :: 'e poll_event list)\<rparr> \<noteq> None"
      by simp
    from no_cap_run [where m = m and cb = cb and url = url and ds = ds, OF never go this]
    show ?thesis by (auto simp add: poll_def)
  qed
  have c2: "attempts s \<le> 60"
    if "alternating evs" "poll url cb (Some interval) None evs = Some s"
  proof -
    from that(2) have "poll_run url cb (Finite 60) evs
        \<lparr>attempts = 0, timer = Some interval, in_flight = 0, trace = []\<rparr> = Some s"
      by (simp add: poll_def)
    from poll_run_cap [where m = "Finite 60" and k = "\<lceil>60::real\<rceil>", OF Finite_cap that(1) this]
    show ?thesis by simp
  qed
  have c3: "int (length (filter is_Fetch (trace s))) = attempts s"
    if "poll url cb (Some interval) (Some m) evs = Some s"
    using poll_run_count [of url cb m evs _ s] that by (simp add: poll_def)
  have c4: "timer (fst (poll_resume cb m (Response True st (Some d)) t)) = None"
    if "snd (cb d (attempts t)) = Returned False"
    using that by (rule poll_resume_falsy)
  have c5: "timer t' = None \<and> attempts t' = attempts t
        \<and> filter is_Fetch (trace t') = filter is_Fetch (trace t)"
    if "timer t = None" "poll_run url cb m evs t = Some t'"
    using that by (rule poll_run_stopped)
  have c6: "monitorizarEjecucion eid [] =
              Some \<lparr>attempts = 0, timer = Some (Finite 5000), in_flight = 0, trace = []\<rparr>"
    by (simp add: monitorizarEjecucion_def poll_def)
  have c7: "attempts ms \<le> 120" if "alternating mevs" "monitorizarEjecucion eid mevs = Some ms"
  proof -
    from that(2) have "poll_run (''/turnos/ajax/ejecucion/'' @ eid @ ''/estado/'')
        monitor_callback (Finite 120) mevs
        \<lparr>attempts = 0, timer = Some (Finite 5000), in_flight = 0, trace = []\<rparr> = Some ms"
      by (simp add: monitorizarEjecucion_def poll_def)
    from poll_run_cap [where m = "Finite 120" and k = "\<lceil>120::real\<rceil>", OF Finite_cap that(1) this]
    show ?thesis by simp
  qed
  have c8: "timer ms = None"
    if "monitorizarEjecucion eid mevs = Some ms" "Settle (ok_json dm) \<in> set mevs"
      "estado dm = ''COMPLETADA'' \<or> estado dm = ''ERROR''"
  proof -
    from that(1) have run: "poll_run (''/turnos/ajax/ejecucion/'' @ eid @ ''/estado/'')
        monitor_callback (Finite 120) mevs
        \<lparr>attempts = 0, timer = Some (Finite 5000), in_flight = 0, trace = []\<rparr> = Some ms"
      by (simp add: monitorizarEjecucion_def poll_def)
    from that(2) have "Settle (Response True 200 (Some dm)) \<in> set mevs" by (simp add: ok_json_def)
    from poll_run_falsy_stops [OF run this] monitor_callback_terminal [OF that(3)]
    show ?thesis by simp
  qed
  from c1 c1n c1u c2 c3 c4 c5 c6 c7 c8 show ?thesis by blast
qed

theorem poll_attempt_cap_witness:
  "alternating [Tick, Settle (ok_json \<lparr>estado = ''PENDIENTE''\<rparr>),
                Tick, Settle (ok_json \<lparr>estado = ''ERROR''\<rparr>), Tick]
   \<and> poll ''/estado/'' monitor_callback (Some (Finite 5000)) (Some (Finite 2))
        [Tick, Settle (ok_json \<lparr>estado = ''PENDIENTE''\<rparr>),
         Tick, Settle (ok_json \<lparr>estado = ''ERROR''\<rparr>), Tick] =
      Some \<lparr>attempts = 2, timer = None, in_flight = 0,
            trace = [Fetch ''/estado/?'', Effect (OnUpdate \<lparr>estado = ''PENDIENTE''\<rparr>),
                     Fetch ''/estado/?'', Effect (OnUpdate \<lparr>estado = ''ERROR''\<rparr>),
                     Effect (OnComplete \<lparr>estado = ''ERROR''\<rparr>), ClearInterval]\<rparr>
   \<and> (2::int) \<le> max 1 \<lceil>2::real\<rceil>
   \<and> map_option attempts
        (poll ''/estado/'' continuar (Some (Finite 5000)) (Some NaN)
           (sequential (map ok_json [(), (), ()]))) = Some 3
   \<and> monitorizarEjecucion ''42''
        [Tick, Settle (ok_json \<lparr>estado = ''PENDIENTE''\<rparr>),
         Tick, Settle (ok_json \<lparr>estado = ''ERROR''\<rparr>), Tick] =
      Some \<lparr>attempts = 2, timer = None, in_flight = 0,
            trace = [Fetch ''/turnos/ajax/ejecucion/42/estado/?'',
                     Effect (OnUpdate \<lparr>estado = ''PENDIENTE''\<rparr>),
                     Fetch ''/turnos/ajax/ejecucion/42/estado/?'',
                     Effect (OnUpdate \<lparr>estado = ''ERROR''\<rparr>),
                     Effect (OnComplete \<lparr>estado = ''ERROR''\<rparr>), ClearInterval]\<rparr>
   \<and> (2::int) \<le> 120"
proof -
  let ?P = "\<lparr>estado = ''PENDIENTE''\<rparr>" and ?E = "\<lparr>estado = ''ERROR''\<rparr>"
  let ?evs = "[Tick, Settle (ok_json ?P), Tick, Settle (ok_json ?E), Tick]"
  let ?s = "\<lparr>attempts = 2, timer = None, in_flight = 0,
            trace = [Fetch ''/estado/?'', Effect (OnUpdate ?P),
                     Fetch ''/estado/?'', Effect (OnUpdate ?E),
                     Effect (OnComplete ?E), ClearInterval]\<rparr>"
  let ?ms = "\<lparr>attempts = 2, timer = None, in_flight = 0,
            trace = [Fetch ''/turnos/ajax/ejecucion/42/estado/?'', Effect (OnUpdate ?P),
                     Fetch ''/turnos/ajax/ejecucion/42/estado/?'', Effect (OnUpdate ?E),
                     Effect (OnComplete ?E), ClearInterval]\<rparr>"
  have a: "alternating ?evs" by simp
  have r: "poll ''/estado/'' monitor_callback (Some (Finite 5000)) (Some (Finite 2)) ?evs = Some ?s"
    by (simp add: poll_def poll_step_def poll_tick_def poll_resume_def
        poll_try_def AjaxHelper_get_request_def AjaxHelper_get_response_def ok_json_def
        monitor_callback_def clearInterval_def Let_def)
  have m: "monitorizarEjecucion ''42'' ?evs = Some ?ms"
    by (simp add: monitorizarEjecucion_def poll_def poll_step_def poll_tick_def poll_resume_def
        poll_try_def AjaxHelper_get_request_def AjaxHelper_get_response_def ok_json_def
        monitor_callback_def clearInterval_def Let_def)
  have g: "\<forall>d n. snd (continuar d n) = Returned True" by (simp add: continuar_def)
  have "attempts ?s \<le> max 1 \<lceil>2::real\<rceil>" and "attempts ?ms \<le> 120"
    using poll_attempt_cap [where evs = ?evs and url = "''/estado/''" and cb = monitor_callback
      and interval = "Finite 5000" and x = 2 and s = ?s and eid = "''42''" and mevs = ?evs
      and ms = ?ms] a r m
    by blast+
  moreover have "map_option attempts
        (poll ''/estado/'' continuar (Some (Finite 5000)) (Some NaN)
           (sequential (map ok_json [(), (), ()]))) = Some (int (length [(), (), ()]))"
    using poll_attempt_cap [where url = "''/estado/''" and cb = continuar
      and interval = "Finite 5000" and m = NaN and ds = "[(), (), ()]"] g
    by blast
  ultimately show ?thesis using a r m by simp
qed

text \<open>
  With \<open>maxAttempts = 0\<close> one attempt is made all the same, since the cap is tested after the
  request of the attempt. With \<open>maxAttempts = 2.5\<close> the timer is cleared at the third attempt.
  With \<open>maxAttempts = 1\<close> and a request that is still in flight when the timer fires again, a
  second attempt is made.
\<close>

theorem poll_attempt_cap_counterexample:
  "poll ''/estado/'' continuar (Some (Finite 5000)) (Some (Finite 0)) [Tick, Settle (ok_json ())] =
     Some \<lparr>attempts = 1, timer = None, in_flight = 0,
           trace = [Fetch ''/estado/?'', ClearInterval]\<rparr>
   \<and> \<not> (1::real) \<le> 0
   \<and> poll ''/estado/'' continuar (Some (Finite 5000)) (Some (Finite (5 / 2)))
       [Tick, Settle (ok_json ()), Tick, Settle (ok_json ()), Tick, Settle (ok_json ())] =
     Some \<lparr>attempts = 3, timer = None, in_flight = 0,
           trace = [Fetch ''/estado/?'', Fetch ''/estado/?'', Fetch ''/estado/?'', ClearInterval]\<rparr>
   \<and> \<not> (3::real) \<le> 5 / 2
   \<and> poll ''/estado/'' continuar (Some (Finite 5000)) (Some (Finite 1)) [Tick, Tick] =
     Some \<lparr>attempts = 2, timer = Some (Finite 5000), in_flight = 2,
           trace = [Fetch ''/estado/?'', Fetch ''/estado/?'']\<rparr>
   \<and> \<not> (2::real) \<le> 1"
  by (simp add: poll_def poll_step_def poll_tick_def poll_resume_def poll_try_def
      AjaxHelper_get_request_def AjaxHelper_get_response_def ok_json_def continuar_def
      clearInterval_def Let_def)

text \<open>
  Claim C7. When the \<open>get\<close> of an attempt is rejected, the callback logs the error and clears
  the timer, runs no action of the caller's callback, and lets no exception escape; whatever
  happens afterwards, no further request is issued.
\<close>

theorem poll_fetch_failure_terminal:
  assumes "snd (AjaxHelper_get_response r) = Inl e" and "0 < in_flight s"
  shows "poll_step url cb m (Settle r) s =
           Some (s\<lparr>in_flight := in_flight s - 1, timer := None,
                   trace := trace s @ [ConsoleError Error_en_peticion_GET,
                                       ConsoleError Error_en_polling, ClearInterval]\<rparr>)
       \<and> snd (poll_resume cb m r s) = None
       \<and> filter is_Effect (trace (fst (poll_resume cb m r s))) = filter is_Effect (trace s)
       \<and> (poll_run url cb m (Settle r # evs) s = Some s' \<longrightarrow>
            timer s' = None \<and> filter is_Fetch (trace s') = filter is_Fetch (trace s))"
proof -
  note f = poll_resume_failure [OF assms(1), of cb m s]
  have a: "poll_step url cb m (Settle r) s =
           Some (s\<lparr>in_flight := in_flight s - 1, timer := None,
                   trace := trace s @ [ConsoleError Error_en_peticion_GET,
                                       ConsoleError Error_en_polling, ClearInterval]\<rparr>)"
    using assms(2) by (simp add: poll_step_def f)
  have b: "timer s' = None \<and> filter is_Fetch (trace s') = filter is_Fetch (trace s)"
    if "poll_run url cb m (Settle r # evs) s = Some s'"
  proof -
    let ?s1 = "s\<lparr>in_flight := in_flight s - 1, timer := None,
                   trace := trace s @ [ConsoleError Error_en_peticion_GET,
                                       ConsoleError Error_en_polling, ClearInterval]\<rparr>"
    from that a have "poll_run url cb m evs ?s1 = Some s'" by simp
    from poll_run_stopped [OF _ this] show ?thesis by simp
  qed
  from a b show ?thesis by (simp add: f)
qed

theorem poll_fetch_failure_terminal_witness:
  "poll_run ''/estado/'' monitor_callback (Finite 120)
     [Settle FetchRejected, Tick]
     \<lparr>attempts = 2, timer = Some (Finite 5000), in_flight = 1,
      trace = [Fetch ''/estado/?'', Effect (OnUpdate \<lparr>estado = ''PENDIENTE''\<rparr>),
               Fetch ''/estado/?'']\<rparr> =
   Some \<lparr>attempts = 2, timer = None, in_flight = 0,
         trace = [Fetch ''/estado/?'', Effect (OnUpdate \<lparr>estado = ''PENDIENTE''\<rparr>),
                  Fetch ''/estado/?'', ConsoleError Error_en_peticion_GET,
                  ConsoleError Error_en_polling, ClearInterval]\<rparr>"
proof -
  let ?s = "\<lparr>attempts = 2, timer = Some (Finite 5000), in_flight = 1,
      trace = [Fetch ''/estado/?'', Effect (OnUpdate \<lparr>estado = ''PENDIENTE''\<rparr>),
               Fetch ''/estado/?'']\<rparr>"
  have a: "snd (AjaxHelper_get_response (FetchRejected :: ejecucion fetch_result)) = Inl NetworkError"
    by (simp add: AjaxHelper_get_response_def)
  have b: "0 < in_flight ?s" by simp
  from poll_fetch_failure_terminal [OF a b, of "''/estado/''" monitor_callback "Finite 120"]
  show ?thesis by (simp add: poll_step_def)
qed

section \<open>Properties of the constraint form\<close>

lemma forEach_dura_eq:
  "forEach_dura pf cards acc =
     (if list_all dura_readable cards
      then Inr (acc @ map (dura_entry pf) (filter dura_selected cards))
      else Inl TypeError)"
  by (induction cards arbitrary: acc)
    (auto simp add: dura_readable_def dura_selected_def dura_entry_def split: option.splits)

lemma forEach_blanda_eq:
  "forEach_blanda pf cards acc =
     (if list_all blanda_readable cards
      then Inr (acc @ map (blanda_entry pf) (filter blanda_selected cards))
      else Inl TypeError)"
  by (induction cards arbitrary: acc)
    (auto simp add: blanda_readable_def blanda_selected_def blanda_entry_def split: option.splits)

lemma list_all_filter_readable_d:
  "list_all dura_readable (filter dura_selected cards) = list_all dura_readable cards"
  by (induction cards) (auto simp add: dura_readable_def)

lemma list_all_filter_readable_b:
  "list_all blanda_readable (filter blanda_selected cards) = list_all blanda_readable cards"
  by (induction cards) (auto simp add: blanda_readable_def)

lemma serializar_eq:
  "serializarRestricciones pf doc =
     (if list_all dura_readable (duras_cards doc) \<and> list_all blanda_readable (blandas_cards doc)
      then Inr \<lparr>duras = map (dura_entry pf) (filter dura_selected (duras_cards doc)),
                blandas = map (blanda_entry pf) (filter blanda_selected (blandas_cards doc))\<rparr>
      else Inl TypeError)"
  by (simp add: serializarRestricciones_def forEach_dura_eq forEach_blanda_eq)

lemma foldl_upd_find:
  "foldl (\<lambda>m x. m(key x \<mapsto> val x)) m0 xs k =
     (case find (\<lambda>x. key x = k) (rev xs) of None \<Rightarrow> m0 k | Some x \<Rightarrow> Some (val x))"
  by (induction xs rule: rev_induct) simp_all

lemma collect_parametros_find:
  "collect_parametros pf inputs k =
     (case find (\<lambda>i. paramName i = k) (rev (filter is_param_input inputs)) of
        None \<Rightarrow> None
      | Some i \<Rightarrow> Some (paramValue pf i))"
  by (simp add: collect_parametros_def foldl_upd_find)

lemma update_first_nth:
  "k < length xs \<Longrightarrow> P (xs ! k) \<Longrightarrow> (\<forall>j<k. \<not> P (xs ! j)) \<Longrightarrow>
   update_first P f xs = xs[k := f (xs ! k)]"
proof (induction xs arbitrary: k)
  case Nil
  then show ?case by simp
next
  case (Cons x xs)
  show ?case
  proof (cases k)
    case 0
    with Cons.prems show ?thesis by simp
  next
    case (Suc n)
    from Cons.prems(3) Suc have nx: "\<not> P x" by auto
    have "\<forall>j<n. \<not> P (xs ! j)"
    proof (intro allI impI)
      fix j assume "j < n"
      then have "Suc j < k" using Suc by simp
      with Cons.prems(3) have "\<not> P ((x # xs) ! Suc j)" by blast
      then show "\<not> P (xs ! j)" by simp
    qed
    with Cons.IH [of n] Cons.prems Suc have "update_first P f xs = xs[n := f (xs ! n)]" by simp
    with nx Suc show ?thesis by simp
  qed
qed

subsection \<open>Serialization\<close>

text \<open>
  Claim C6. For a page with exactly one hard card, of which a type is selected and the check
  box is checked, and with no soft card, \<open>serializarRestricciones\<close> returns one hard entry and
  no soft entry. The entry has the selected identifier as \<open>nombre\<close>, \<open>activa = true\<close>, and as
  \<open>parametros\<close> the mapping built from the card's parameter inputs: a key is the last
  \<open>_\<close>-separated segment of an input's name and maps to the value of the last input with that
  key, parsed as a number when the input's type is \<open>number\<close> and left a string otherwise.
\<close>

theorem serializar_one_dura:
  assumes "duras_cards doc = [c]" and "blandas_cards doc = []"
    and "dura_tipoSelect c = Some t" and "t \<noteq> []" and "dura_activaCheck c = Some True"
  shows "serializarRestricciones pf doc =
           Inr \<lparr>duras = [\<lparr>nombre = t, activa = True,
                          parametros = collect_parametros pf (dura_inputs c)\<rparr>],
                blandas = []\<rparr>
       \<and> collect_parametros pf (dura_inputs c) k =
           (case find (\<lambda>i. paramName i = k) (rev (filter is_param_input (dura_inputs c))) of
              None \<Rightarrow> None
            | Some i \<Rightarrow> Some (paramValue pf i))"
  using assms by (simp add: serializarRestricciones_def collect_parametros_find)

theorem serializar_one_dura_witness:
  "serializarRestricciones parseFloat_digits pagina_una_dura =
     Inr \<lparr>duras = [\<lparr>nombre = ''cobertura_minima'', activa = True,
                    parametros = [''semana'' \<mapsto> PNum (Finite 1)]\<rparr>],
          blandas = []\<rparr>"
proof -
  have h: "duras_cards pagina_una_dura = [tarjeta_cobertura_minima]"
    "blandas_cards pagina_una_dura = []"
    "dura_tipoSelect tarjeta_cobertura_minima = Some ''cobertura_minima''"
    "''cobertura_minima'' \<noteq> []"
    "dura_activaCheck tarjeta_cobertura_minima = Some True"
    by (simp_all add: pagina_una_dura_def tarjeta_cobertura_minima_def)
  have p: "collect_parametros parseFloat_digits (dura_inputs tarjeta_cobertura_minima) =
           [''semana'' \<mapsto> PNum (Finite 1)]"
    by (simp add: collect_parametros_def tarjeta_cobertura_minima_def is_param_input_def
        paramName_def paramValue_def parseFloat_digits_def digit_value_def)
  from serializar_one_dura [OF h, of parseFloat_digits] p show ?thesis by simp
qed

text \<open>
  Claim C9. A card, hard or soft, whose select is missing or has the empty value contributes
  nothing: serializing a page gives the same result as serializing it without these cards,
  adding such a card anywhere changes nothing, and the names serialized are those of the
  selected cards, in order.
\<close>

theorem serializar_skips_unselected:
  "serializarRestricciones pf doc =
     serializarRestricciones pf
       (doc\<lparr>duras_cards := filter dura_selected (duras_cards doc),
            blandas_cards := filter blanda_selected (blandas_cards doc)\<rparr>)
   \<and> (\<not> dura_selected dc \<longrightarrow>
        serializarRestricciones pf (doc\<lparr>duras_cards := ds1 @ dc # ds2\<rparr>) =
        serializarRestricciones pf (doc\<lparr>duras_cards := ds1 @ ds2\<rparr>))
   \<and> (\<not> blanda_selected bc \<longrightarrow>
        serializarRestricciones pf (doc\<lparr>blandas_cards := bs1 @ bc # bs2\<rparr>) =
        serializarRestricciones pf (doc\<lparr>blandas_cards := bs1 @ bs2\<rparr>))
   \<and> (serializarRestricciones pf doc = Inr r \<longrightarrow>
        map nombre (duras r) = map (\<lambda>c. the (dura_tipoSelect c)) (filter dura_selected (duras_cards doc))
        \<and> map nombre (blandas r) =
            map (\<lambda>c. the (blanda_tipoSelect c)) (filter blanda_selected (blandas_cards doc)))"
proof -
  have a: "serializarRestricciones pf doc =
     serializarRestricciones pf
       (doc\<lparr>duras_cards := filter dura_selected (duras_cards doc),
            blandas_cards := filter blanda_selected (blandas_cards doc)\<rparr>)"
    by (simp add: serializar_eq list_all_filter_readable_d list_all_filter_readable_b)
  have b: "serializarRestricciones pf (doc\<lparr>duras_cards := ds1 @ dc # ds2\<rparr>) =
        serializarRestricciones pf (doc\<lparr>duras_cards := ds1 @ ds2\<rparr>)" if "\<not> dura_selected dc"
    using that by (simp add: serializar_eq dura_readable_def)
  have c: "serializarRestricciones pf (doc\<lparr>blandas_cards := bs1 @ bc # bs2\<rparr>) =
        serializarRestricciones pf (doc\<lparr>blandas_cards := bs1 @ bs2\<rparr>)" if "\<not> blanda_selected bc"
    using that by (simp add: serializar_eq blanda_readable_def)
  have d: "map nombre (duras r) = map (\<lambda>c. the (dura_tipoSelect c)) (filter dura_selected (duras_cards doc))
        \<and> map nombre (blandas r) =
            map (\<lambda>c. the (blanda_tipoSelect c)) (filter blanda_selected (blandas_cards doc))"
    if "serializarRestricciones pf doc = Inr r"
    using that by (auto simp add: serializar_eq dura_entry_def blanda_entry_def split: if_splits)
  from a b c d show ?thesis by blast
qed

theorem serializar_skips_unselected_witness:
  "serializarRestricciones parseFloat_digits
     (pagina_una_dura\<lparr>duras_cards := [] @ tarjeta_dura_sin_tipo # [tarjeta_cobertura_minima]\<rparr>) =
     Inr \<lparr>duras = [\<lparr>nombre = ''cobertura_minima'', activa = True,
                    parametros = [''semana'' \<mapsto> PNum (Finite 1)]\<rparr>],
          blandas = []\<rparr>"
proof -
  have h: "\<not> dura_selected tarjeta_dura_sin_tipo"
    by (simp add: dura_selected_def tarjeta_dura_sin_tipo_def)
  have e: "serializarRestricciones parseFloat_digits
             (pagina_una_dura\<lparr>duras_cards := [] @ [tarjeta_cobertura_minima]\<rparr>) =
           Inr \<lparr>duras = [\<lparr>nombre = ''cobertura_minima'', activa = True,
                          parametros = [''semana'' \<mapsto> PNum (Finite 1)]\<rparr>],
                blandas = []\<rparr>"
    by (simp add: serializarRestricciones_def pagina_una_dura_def tarjeta_cobertura_minima_def
        collect_parametros_def is_param_input_def paramName_def paramValue_def
        parseFloat_digits_def digit_value_def)
  from serializar_skips_unselected [of parseFloat_digits pagina_una_dura tarjeta_dura_sin_tipo
      "[]" "[tarjeta_cobertura_minima]"] h e
  show ?thesis by metis
qed

subsection \<open>Validation\<close>

text \<open>
  Claim C4. When serialization yields no hard constraint, which is when no hard card has a
  type selected, \<open>validarRestriccionesFormulario\<close> returns \<open>false\<close> and changes nothing on the
  page but the alert shown, so the hidden fields keep their values. Otherwise it returns
  \<open>true\<close> and each hidden field that exists holds the JSON text of its array.
\<close>

theorem validar_requires_dura:
  assumes "serializarRestricciones pf doc = Inr r"
  shows "(duras r = [] \<longrightarrow>
            validarRestriccionesFormulario pf sd sb doc =
              Inr (False, doc\<lparr>alerts := alerts doc @ [alerta_sin_duras]\<rparr>))
       \<and> (duras r \<noteq> [] \<longrightarrow>
            validarRestriccionesFormulario pf sd sb doc =
              Inr (True,
                   doc\<lparr>restricciones_duras_json :=
                         map_option (\<lambda>old. sd (duras r)) (restricciones_duras_json doc),
                       restricciones_blandas_json :=
                         map_option (\<lambda>old. sb (blandas r)) (restricciones_blandas_json doc)\<rparr>))
       \<and> (duras r = [] \<longleftrightarrow> filter dura_selected (duras_cards doc) = [])"
proof -
  have "duras r = [] \<longleftrightarrow> filter dura_selected (duras_cards doc) = []"
    using assms by (auto simp add: serializar_eq split: if_splits)
  then show ?thesis
    using assms by (simp add: validarRestriccionesFormulario_def map_option_case)
qed

theorem validar_requires_dura_witness:
  "validarRestriccionesFormulario parseFloat_digits (\<lambda>ds. ''[1]'') (\<lambda>bs. ''[]'') pagina_peso_15 =
     Inr (False, pagina_peso_15\<lparr>alerts := [alerta_sin_duras]\<rparr>)
   \<and> validarRestriccionesFormulario parseFloat_digits (\<lambda>ds. ''[1]'') (\<lambda>bs. ''[]'') pagina_una_dura =
     Inr (True, pagina_una_dura\<lparr>restricciones_duras_json := Some ''[1]'',
                                 restricciones_blandas_json := Some ''[]''\<rparr>)"
proof -
  let ?r1 = "\<lparr>duras = [], blandas = [\<lparr>nombre = ''preferencias_turno'', activa = True,
                    parametros = Map.empty, peso = Finite 15\<rparr>]\<rparr>"
  let ?r2 = "\<lparr>duras = [\<lparr>nombre = ''cobertura_minima'', activa = True,
                    parametros = collect_parametros parseFloat_digits (dura_inputs tarjeta_cobertura_minima)\<rparr>],
          blandas = []\<rparr>"
  have s1: "serializarRestricciones parseFloat_digits pagina_peso_15 = Inr ?r1"
    by (simp add: serializarRestricciones_def pagina_peso_15_def tarjeta_peso_15_def
        tarjeta_preferencias_turno_def parseFloat_digits_def digit_value_def)
  have s2: "serializarRestricciones parseFloat_digits pagina_una_dura = Inr ?r2"
    by (simp add: serializarRestricciones_def pagina_una_dura_def tarjeta_cobertura_minima_def)
  have a: "alerts pagina_peso_15 = []" by (simp add: pagina_peso_15_def)
  have b: "restricciones_duras_json pagina_una_dura = Some []"
    "restricciones_blandas_json pagina_una_dura = Some []"
    by (simp_all add: pagina_una_dura_def)
  from validar_requires_dura [OF s1, of "\<lambda>ds. ''[1]''" "\<lambda>bs. ''[]''"]
    validar_requires_dura [OF s2, of "\<lambda>ds. ''[1]''" "\<lambda>bs. ''[]''"] a b
  show ?thesis by simp
qed

subsection \<open>The two weight controls\<close>

text \<open>
  Claim C8, as the code has it. \<open>actualizarPeso(index, v)\<close> assigns \<open>v\<close> to the number input
  found for the index and \<open>sincronizarPeso(index, v)\<close> assigns \<open>v\<close> to the slider found for it;
  the control keeps what its sanitization makes of \<open>v\<close>, and nothing else on the page
  changes. For a card that no earlier card shares its \<open>data-index\<close> with, the controls found
  are its own, so after either update both of its controls hold \<open>v\<close> when \<open>v\<close> is the value of
  the control that was moved and the other control accepts it as it is.
\<close>

theorem peso_controls_synchronized:
  assumes "k < length (blandas_cards doc)"
    and "blanda_index (blandas_cards doc ! k) = i"
    and "\<forall>n<k. blanda_index (blandas_cards doc ! n) \<noteq> i"
  shows
  "let c = blandas_cards doc ! k;
       moved = actualizarPeso sanitize_number i v doc;
       typed = sincronizarPeso sanitize_range i v doc
   in (blanda_pesoInput c \<noteq> None \<longrightarrow>
         moved = doc\<lparr>blandas_cards :=
                   (blandas_cards doc)[k := c\<lparr>blanda_pesoInput := Some (sanitize_number v)\<rparr>]\<rparr>)
    \<and> (blanda_pesoRange c \<noteq> None \<longrightarrow>
         typed = doc\<lparr>blandas_cards :=
                   (blandas_cards doc)[k := c\<lparr>blanda_pesoRange := Some (sanitize_range v)\<rparr>]\<rparr>)
    \<and> (blanda_pesoInput c \<noteq> None \<and> blanda_pesoRange c = Some v \<and> sanitize_number v = v \<longrightarrow>
         blanda_pesoInput (blandas_cards moved ! k) = Some v
         \<and> blanda_pesoRange (blandas_cards moved ! k) = Some v)
    \<and> (blanda_pesoRange c \<noteq> None \<and> blanda_pesoInput c = Some v \<and> sanitize_range v = v \<longrightarrow>
         blanda_pesoRange (blandas_cards typed ! k) = Some v
         \<and> blanda_pesoInput (blandas_cards typed ! k) = Some v)"
proof -
  let ?cs = "blandas_cards doc"
  let ?c = "?cs ! k"
  have a: "actualizarPeso sanitize_number i v doc =
             doc\<lparr>blandas_cards := ?cs[k := ?c\<lparr>blanda_pesoInput := Some (sanitize_number v)\<rparr>]\<rparr>"
    if "blanda_pesoInput ?c \<noteq> None"
  proof -
    have "has_pesoInput i ?c" using that assms(2) by (simp add: has_pesoInput_def)
    moreover have "\<forall>n<k. \<not> has_pesoInput i (?cs ! n)"
      using assms(3) by (simp add: has_pesoInput_def)
    ultimately show ?thesis
      using update_first_nth [OF assms(1), of "has_pesoInput i"
          "\<lambda>c. c\<lparr>blanda_pesoInput := Some (sanitize_number v)\<rparr>"]
      by (simp add: actualizarPeso_def)
  qed
  have b: "sincronizarPeso sanitize_range i v doc =
             doc\<lparr>blandas_cards := ?cs[k := ?c\<lparr>blanda_pesoRange := Some (sanitize_range v)\<rparr>]\<rparr>"
    if "blanda_pesoRange ?c \<noteq> None"
  proof -
    have "has_pesoRange i ?c" using that assms(2) by (simp add: has_pesoRange_def)
    moreover have "\<forall>n<k. \<not> has_pesoRange i (?cs ! n)"
      using assms(3) by (simp add: has_pesoRange_def)
    ultimately show ?thesis
      using update_first_nth [OF assms(1), of "has_pesoRange i"
          "\<lambda>c. c\<lparr>blanda_pesoRange := Some (sanitize_range v)\<rparr>"]
      by (simp add: sincronizarPeso_def)
  qed
  show ?thesis
    unfolding Let_def using a b assms(1) by auto
qed

theorem peso_controls_synchronized_witness:
  "actualizarPeso sanitize_number_digits 0 ''7''
       (pagina_peso_15\<lparr>blandas_cards := [tarjeta_preferencias_turno\<lparr>blanda_pesoRange := Some ''7''\<rparr>]\<rparr>) =
     pagina_peso_15\<lparr>blandas_cards :=
       [tarjeta_preferencias_turno\<lparr>blanda_pesoRange := Some ''7'', blanda_pesoInput := Some ''7''\<rparr>]\<rparr>
   \<and> sincronizarPeso sanitize_range_digits 0 ''7''
       (pagina_peso_15\<lparr>blandas_cards := [tarjeta_preferencias_turno\<lparr>blanda_pesoInput := Some ''7''\<rparr>]\<rparr>) =
     pagina_peso_15\<lparr>blandas_cards :=
       [tarjeta_preferencias_turno\<lparr>blanda_pesoInput := Some ''7'', blanda_pesoRange := Some ''7''\<rparr>]\<rparr>"
proof -
  let ?a = "pagina_peso_15\<lparr>blandas_cards := [tarjeta_preferencias_turno\<lparr>blanda_pesoRange := Some ''7''\<rparr>]\<rparr>"
  let ?b = "pagina_peso_15\<lparr>blandas_cards := [tarjeta_preferencias_turno\<lparr>blanda_pesoInput := Some ''7''\<rparr>]\<rparr>"
  have n: "sanitize_number_digits ''7'' = ''7''" and r: "sanitize_range_digits ''7'' = ''7''"
    by (simp_all add: sanitize_number_digits_def sanitize_range_digits_def digits_number_def
        digit_value_def)
  have ha: "0 < length (blandas_cards ?a)" "blanda_index (blandas_cards ?a ! 0) = 0"
    "\<forall>n<0. blanda_index (blandas_cards ?a ! n) \<noteq> 0"
    "blanda_pesoInput (blandas_cards ?a ! 0) \<noteq> None"
    by (simp_all add: tarjeta_preferencias_turno_def)
  have hb: "0 < length (blandas_cards ?b)" "blanda_index (blandas_cards ?b ! 0) = 0"
    "\<forall>n<0. blanda_index (blandas_cards ?b ! n) \<noteq> 0"
    "blanda_pesoRange (blandas_cards ?b ! 0) \<noteq> None"
    by (simp_all add: tarjeta_preferencias_turno_def)
  from peso_controls_synchronized [OF ha(1-3), of sanitize_number_digits "''7''" sanitize_range_digits]
    peso_controls_synchronized [OF hb(1-3), of sanitize_number_digits "''7''" sanitize_range_digits]
    ha(4) hb(4) n r
  show ?thesis by (simp add: Let_def)
qed

text \<open>
  After \<open>15\<close> is typed into the number input, \<open>sincronizarPeso\<close> is called with \<open>15\<close>; the slider
  then holds \<open>10\<close> and the number input \<open>15\<close>.
\<close>

theorem peso_controls_synchronized_counterexample:
  "map blanda_pesoRange
     (blandas_cards (sincronizarPeso sanitize_range_digits 0 ''15'' pagina_peso_15)) = [Some ''10'']
   \<and> map blanda_pesoInput
     (blandas_cards (sincronizarPeso sanitize_range_digits 0 ''15'' pagina_peso_15)) = [Some ''15'']
   \<and> ''10'' \<noteq> ''15''"
  by (simp add: sincronizarPeso_def pagina_peso_15_def tarjeta_peso_15_def
      tarjeta_preferencias_turno_def has_pesoRange_def sanitize_range_digits_def
      digits_number_def digit_value_def)

text \<open>
  On the page with two cards of one \<open>data-index\<close>, the update for the slider of the second
  card reaches the number input of the first.
\<close>

lemma repeated_index_reaches_first_card:
  "map blanda_pesoInput
     (blandas_cards (actualizarPeso sanitize_number_digits 2 ''8'' pagina_indice_repetido)) =
   [Some ''8'', Some ''3'']"
  by (simp add: actualizarPeso_def pagina_indice_repetido_def tarjeta_preferencias_turno_def
      has_pesoInput_def sanitize_number_digits_def digits_number_def digit_value_def)

subsection \<open>The serialized weight\<close>

text \<open>
  Claim C3, as the code has it. The \<open>peso\<close> of every serialized soft constraint is
  \<open>parseFloat\<close> of the current value of the card's number input, as it is: the weights lie
  in the interval from 0 to 10 exactly when the parsed values of the inputs do.
\<close>

theorem peso_is_parsed_input:
  assumes "serializarRestricciones pf doc = Inr r"
  shows "map peso (blandas r) =
           map (\<lambda>c. pf (the (blanda_pesoInput c))) (filter blanda_selected (blandas_cards doc))
       \<and> ((\<forall>b \<in> set (blandas r). in_0_10 (peso b)) \<longleftrightarrow>
           (\<forall>c \<in> set (filter blanda_selected (blandas_cards doc)).
              in_0_10 (pf (the (blanda_pesoInput c)))))"
proof -
  have m: "map peso (blandas r) =
           map (\<lambda>c. pf (the (blanda_pesoInput c))) (filter blanda_selected (blandas_cards doc))"
    using assms by (auto simp add: serializar_eq blanda_entry_def split: if_splits)
  have "(\<forall>b \<in> set (blandas r). in_0_10 (peso b)) \<longleftrightarrow> (\<forall>n \<in> set (map peso (blandas r)). in_0_10 n)"
    by simp
  also have "\<dots> \<longleftrightarrow> (\<forall>c \<in> set (filter blanda_selected (blandas_cards doc)).
              in_0_10 (pf (the (blanda_pesoInput c))))"
    unfolding m by simp
  finally show ?thesis using m by simp
qed

theorem peso_is_parsed_input_witness:
  "map peso [\<lparr>nombre = ''preferencias_turno'', activa = True,
              parametros = Map.empty, peso = Finite 15\<rparr>] =
   map (\<lambda>c. parseFloat_digits (the (blanda_pesoInput c)))
     (filter blanda_selected (blandas_cards pagina_peso_15))"
proof -
  let ?r1 = "\<lparr>duras = [], blandas = [\<lparr>nombre = ''preferencias_turno'', activa = True,
                    parametros = Map.empty, peso = Finite 15\<rparr>]\<rparr>"
  have s1: "serializarRestricciones parseFloat_digits pagina_peso_15 = Inr ?r1"
    by (simp add: serializarRestricciones_def pagina_peso_15_def tarjeta_peso_15_def
        tarjeta_preferencias_turno_def parseFloat_digits_def digit_value_def)
  from peso_is_parsed_input [OF s1] show ?thesis by simp
qed

text \<open>
  After \<open>15\<close> is typed into the number input and \<open>sincronizarPeso\<close> has assigned it to the
  slider, the serialized weight is 15.
\<close>

theorem peso_clamped_counterexample:
  "pesos parseFloat_digits (sincronizarPeso sanitize_range_digits 0 ''15'' pagina_peso_15) =
     Inr [Finite 15]
   \<and> \<not> in_0_10 (Finite 15)"
  by (simp add: pesos_def serializarRestricciones_def sincronizarPeso_def pagina_peso_15_def
      tarjeta_peso_15_def tarjeta_preferencias_turno_def parseFloat_digits_def digit_value_def has_pesoRange_def)

end
